theory Spec2Isabelle
  imports Complex_Main
begin

section \<open>CRDT Count (crdt-count.ts)\<close>

subsection \<open>JavaScript maps\<close>

text \<open>
  A JavaScript \<open>Map\<close> keeps its entries in insertion order and \<open>keys()\<close> iterates in
  that order, so a map is an association list: \<open>set\<close> on a present key replaces the
  value in place, \<open>set\<close> on an absent key appends the entry.
\<close>

type_synonym ('k, 'v) js_map = "('k \<times> 'v) list"

definition map_get :: "('k, 'v) js_map \<Rightarrow> 'k \<Rightarrow> 'v option" where
  "map_get m k = map_of m k"

definition map_has :: "('k, 'v) js_map \<Rightarrow> 'k \<Rightarrow> bool" where
  "map_has m k = (map_of m k \<noteq> None)"

fun map_set :: "('k, 'v) js_map \<Rightarrow> 'k \<Rightarrow> 'v \<Rightarrow> ('k, 'v) js_map" where
  "map_set [] k v = [(k, v)]"
| "map_set ((k', v') # m) k v =
     (if k' = k then (k, v) # m else (k', v') # map_set m k v)"

definition map_keys :: "('k, 'v) js_map \<Rightarrow> 'k list" where
  "map_keys m = map fst m"

subsection \<open>JavaScript numbers\<close>

text \<open>
  The values, the versions and the fields of an operation have the type \<open>number\<close>:
  they are IEEE 754 doubles, so they include NaN and the infinities, and a sum or a
  difference is rounded. The two zeros are one number here: \<open>===\<close>, \<open><\<close>, \<open><=\<close>,
  \<open>>\<close>, \<open>>=\<close> and \<open>||\<close>, with which the counter inspects its numbers, do not tell
  \<open>-0\<close> from \<open>0\<close>.
\<close>

text \<open>
  Rounding a real number to the nearest integer, a tie going to the even one.
\<close>

definition round_half_even :: "real \<Rightarrow> int" where
  "round_half_even q =
     (if q - of_int \<lfloor>q\<rfloor> < 1 / 2 then \<lfloor>q\<rfloor>
      else if q - of_int \<lfloor>q\<rfloor> > 1 / 2 then \<lfloor>q\<rfloor> + 1
      else if even \<lfloor>q\<rfloor> then \<lfloor>q\<rfloor> else \<lfloor>q\<rfloor> + 1)"

text \<open>
  The spacing of the doubles around \<open>x\<close>: \<open>2 ^ (e - 52)\<close> where \<open>2 ^ e \<le> |x| < 2 ^ (e + 1)\<close>,
  and \<open>e\<close> is taken as \<open>-1022\<close> below that (the subnormal numbers).
\<close>

definition ulp :: "real \<Rightarrow> real" where
  "ulp x = 2 powi (max (- 1022) \<lfloor>log 2 \<bar>x\<bar>\<rfloor> - 52)"

text \<open>
  The result of an arithmetic operation is its exact result rounded to the nearest
  multiple of that spacing, ties to even (the IEEE 754 default, which is the only
  rounding mode of JavaScript).
\<close>

definition round_to_double :: "real \<Rightarrow> real" where
  "round_to_double x = (if x = 0 then 0 else of_int (round_half_even (x / ulp x)) * ulp x)"

text \<open>
  All finite doubles lie strictly between \<open>-2 ^ 1024\<close> and \<open>2 ^ 1024\<close>; a rounded result
  outside overflows to an infinity.
\<close>

definition double_limit :: real where
  "double_limit = 2 ^ 1024"

text \<open>
  The finite doubles: \<open>m * 2 ^ j\<close> with a significand \<open>|m| < 2 ^ 53\<close> and an exponent
  \<open>-1074 \<le> j \<le> 971\<close>.
\<close>

definition doubles :: "real set" where
  "doubles = {x. \<exists>m j. \<bar>m\<bar> < 2 ^ 53 \<and> - 1074 \<le> j \<and> j \<le> 971 \<and> x = of_int m * 2 powi j}"

typedef double = doubles
  morphisms real_of_double double_of_real
proof
  have "\<bar>0::int\<bar> < 2 ^ 53 \<and> - 1074 \<le> (0::int) \<and> (0::int) \<le> 971 \<and> (0::real) = of_int 0 * 2 powi 0"
    by simp
  then show "0 \<in> doubles" unfolding doubles_def by (simp only: mem_Collect_eq) blast
qed

text \<open>The type \<open>number\<close>: NaN, the two infinities, or a finite double.\<close>

datatype number = NotANumber | MinusInfinity | Finite double | PlusInfinity

text \<open>
  The number that a real result becomes, and the number that an integer literal
  denotes.
\<close>

definition number_of_real :: "real \<Rightarrow> number" where
  "number_of_real x =
     (if double_limit \<le> round_to_double x then PlusInfinity
      else if round_to_double x \<le> - double_limit then MinusInfinity
      else Finite (double_of_real (round_to_double x)))"

definition number_of_int :: "int \<Rightarrow> number" where
  "number_of_int n = number_of_real (of_int n)"

text \<open>\<open>a + b\<close> and \<open>a - b\<close>.\<close>

fun number_add :: "number \<Rightarrow> number \<Rightarrow> number" where
  "number_add NotANumber b = NotANumber"
| "number_add a NotANumber = NotANumber"
| "number_add (Finite a) (Finite b) = number_of_real (real_of_double a + real_of_double b)"
| "number_add PlusInfinity MinusInfinity = NotANumber"
| "number_add MinusInfinity PlusInfinity = NotANumber"
| "number_add PlusInfinity b = PlusInfinity"
| "number_add a PlusInfinity = PlusInfinity"
| "number_add MinusInfinity b = MinusInfinity"
| "number_add a MinusInfinity = MinusInfinity"

fun number_sub :: "number \<Rightarrow> number \<Rightarrow> number" where
  "number_sub NotANumber b = NotANumber"
| "number_sub a NotANumber = NotANumber"
| "number_sub (Finite a) (Finite b) = number_of_real (real_of_double a - real_of_double b)"
| "number_sub PlusInfinity PlusInfinity = NotANumber"
| "number_sub MinusInfinity MinusInfinity = NotANumber"
| "number_sub PlusInfinity b = PlusInfinity"
| "number_sub a PlusInfinity = MinusInfinity"
| "number_sub MinusInfinity b = MinusInfinity"
| "number_sub a MinusInfinity = PlusInfinity"

text \<open>
  \<open>a < b\<close>, \<open>a > b\<close>, \<open>a === b\<close>, \<open>a <= b\<close> and \<open>a >= b\<close>: every comparison with NaN
  is false.
\<close>

fun number_lt :: "number \<Rightarrow> number \<Rightarrow> bool" where
  "number_lt NotANumber b = False"
| "number_lt a NotANumber = False"
| "number_lt (Finite a) (Finite b) = (real_of_double a < real_of_double b)"
| "number_lt a MinusInfinity = False"
| "number_lt PlusInfinity b = False"
| "number_lt MinusInfinity b = True"
| "number_lt a PlusInfinity = True"

definition number_gt :: "number \<Rightarrow> number \<Rightarrow> bool" where
  "number_gt a b = number_lt b a"

definition number_eq :: "number \<Rightarrow> number \<Rightarrow> bool" where
  "number_eq a b = (a \<noteq> NotANumber \<and> a = b)"

definition number_lte :: "number \<Rightarrow> number \<Rightarrow> bool" where
  "number_lte a b = (number_lt a b \<or> number_eq a b)"

definition number_gte :: "number \<Rightarrow> number \<Rightarrow> bool" where
  "number_gte a b = (number_gt a b \<or> number_eq a b)"

text \<open>
  \<open>v || 0\<close> for a \<open>v\<close> that is a number or \<open>undefined\<close> (\<open>None\<close>): the falsy values
  \<open>undefined\<close>, NaN and 0 give 0.
\<close>

definition or_0 :: "number option \<Rightarrow> number" where
  "or_0 v = (case v of
       None \<Rightarrow> number_of_int 0
     | Some x \<Rightarrow> if x = NotANumber \<or> x = number_of_int 0 then number_of_int 0 else x)"

text \<open>
  The idiom \<open>m.get(k) || 0\<close>: an absent key reads as 0, and so do a stored NaN and a
  stored 0.
\<close>

definition get_or_0 :: "('k, number) js_map \<Rightarrow> 'k \<Rightarrow> number" where
  "get_or_0 m k = or_0 (map_get m k)"

text \<open>
  \<open>m.get(k)\<close> without a default. For an absent key the source yields \<open>undefined\<close>;
  every use that the counter makes of a number (\<open><=\<close>, \<open><\<close>, \<open>+\<close>, \<open>|| 0\<close>) treats
  \<open>undefined\<close> as it treats NaN, which is what the model reads then.
\<close>

definition get_or_undefined :: "('k, number) js_map \<Rightarrow> 'k \<Rightarrow> number" where
  "get_or_undefined m k = (case map_get m k of None \<Rightarrow> NotANumber | Some v \<Rightarrow> v)"

subsection \<open>Data and operations\<close>

text \<open>
  \<open>CountData\<close>: the field \<open>values\<close> of the source is written \<open>values'\<close> here
  (\<open>values\<close> is a reserved word of the theory language).
\<close>

record CountData =
  values' :: "(string, number) js_map"
  version :: "(string, number) js_map"

datatype VersionInfo = VersionInfo (vfrom: number) (vto: number)

datatype CountOperation =
    Increment (actor: string) (op_version: VersionInfo)
  | MultiIncrement (amount: number) (actor: string) (op_version: VersionInfo)

definition newMultiIncrement :: "number \<Rightarrow> string \<Rightarrow> number \<Rightarrow> number \<Rightarrow> CountOperation" where
  "newMultiIncrement v a f t = MultiIncrement v a (VersionInfo f t)"

definition newIncrement :: "string \<Rightarrow> number \<Rightarrow> CountOperation" where
  "newIncrement a f = Increment a (VersionInfo f (number_add f (number_of_int 1)))"

text \<open>The model of a freshly constructed \<open>CRDTCount\<close>: two empty maps.\<close>

definition new_model :: CountData where
  "new_model = \<lparr>values' = [], version = []\<rparr>"

subsection \<open>applyOperation\<close>

text \<open>
  \<open>applyOperation\<close> on the receiver's model: the result is the returned boolean and the
  model after the call. The three checks come first, in the source's order; the two
  \<open>set\<close> calls are the only writes.
\<close>

definition applyOperation :: "CountData \<Rightarrow> CountOperation \<Rightarrow> bool \<times> CountData" where
  "applyOperation model operation =
     (if \<not> number_eq (vfrom (op_version operation)) (get_or_0 (version model) (actor operation))
      then (False, model)
      else if number_lte (vto (op_version operation)) (vfrom (op_version operation))
      then (False, model)
      else (case operation of
          MultiIncrement v a ver \<Rightarrow>
            if number_lt v (number_of_int 0) then (False, model)
            else (True, model\<lparr>values' := map_set (values' model) a (number_add (get_or_0 (values' model) a) v),
                              version := map_set (version model) a (vto ver)\<rparr>)
        | Increment a ver \<Rightarrow>
            (True, model\<lparr>values' := map_set (values' model) a
                                       (number_add (get_or_0 (values' model) a) (number_of_int 1)),
                          version := map_set (version model) a (vto ver)\<rparr>)))"

text \<open>The amount an operation adds: its value, or 1 for an \<open>Increment\<close>.\<close>

definition increment_of :: "CountOperation \<Rightarrow> number" where
  "increment_of operation =
     (case operation of MultiIncrement v a ver \<Rightarrow> v | Increment a ver \<Rightarrow> number_of_int 1)"

subsection \<open>Facts about numbers\<close>

lemma round_half_even_of_int: "round_half_even (of_int k) = k"
  by (simp add: round_half_even_def)

lemma round_half_even_le: "q \<le> of_int n \<Longrightarrow> round_half_even q \<le> n"
  unfolding round_half_even_def by (auto simp: le_floor_iff floor_le_iff)

lemma round_half_even_ge:
  assumes "of_int n \<le> q"
  shows "n \<le> round_half_even q"
proof -
  have "n \<le> \<lfloor>q\<rfloor>" using assms by (simp add: le_floor_iff)
  then show ?thesis unfolding round_half_even_def by auto
qed

lemma binade_bounds:
  assumes "x \<noteq> 0"
  shows "2 powi \<lfloor>log 2 \<bar>x\<bar>\<rfloor> \<le> \<bar>x\<bar>" and "\<bar>x\<bar> < 2 powi (\<lfloor>log 2 \<bar>x\<bar>\<rfloor> + 1)"
proof -
  have p: "2 powr real_of_int k = 2 powi k" for k
    by (rule powr_real_of_int') auto
  have "2 powr real_of_int \<lfloor>log 2 \<bar>x\<bar>\<rfloor> \<le> \<bar>x\<bar>
      \<and> \<bar>x\<bar> < 2 powr real_of_int (\<lfloor>log 2 \<bar>x\<bar>\<rfloor> + 1)"
    using floor_log_eq_powr_iff [of "\<bar>x\<bar>" 2 "\<lfloor>log 2 \<bar>x\<bar>\<rfloor>"] assms by simp
  then show "2 powi \<lfloor>log 2 \<bar>x\<bar>\<rfloor> \<le> \<bar>x\<bar>" and "\<bar>x\<bar> < 2 powi (\<lfloor>log 2 \<bar>x\<bar>\<rfloor> + 1)"
    unfolding p by simp_all
qed

lemma binade_less:
  assumes "x \<noteq> 0" and "\<bar>x\<bar> < 2 powi n"
  shows "\<lfloor>log 2 \<bar>x\<bar>\<rfloor> < n"
proof (rule ccontr)
  assume "\<not> \<lfloor>log 2 \<bar>x\<bar>\<rfloor> < n"
  then have "(2::real) powi n \<le> 2 powi \<lfloor>log 2 \<bar>x\<bar>\<rfloor>"
    by (intro power_int_increasing) auto
  with binade_bounds(1) [OF assms(1)] assms(2) show False by linarith
qed

lemma ulp_pos: "0 < ulp x"
  by (simp add: ulp_def)

lemma pow2_add: "(2::real) powi (a + b) = 2 powi a * 2 powi b"
  by (rule power_int_add) simp

lemma pow2_nat: "(2::real) powi int n = 2 ^ n"
  by (rule power_int_of_nat)

lemma pow2_split: "(2::real) powi n = 2 ^ k * 2 powi (n - int k)"
proof -
  have "(2::real) powi n = 2 powi (int k + (n - int k))"
    by (rule arg_cong [of _ _ "\<lambda>i. 2 powi i"]) simp
  also have "\<dots> = 2 powi int k * 2 powi (n - int k)" by (rule pow2_add)
  finally show ?thesis by (simp only: pow2_nat)
qed

text \<open>
  Rounding leaves \<open>m * 2 ^ j\<close> as it is when \<open>|m| < 2 ^ 53\<close> and \<open>j \<ge> -1074\<close>.
\<close>

lemma round_to_double_fixed:
  assumes m: "\<bar>m\<bar> < 2 ^ 53" and j: "- 1074 \<le> j" and x: "x = of_int m * 2 powi j"
  shows "round_to_double x = x"
proof (cases "x = 0")
  case True
  then show ?thesis by (simp add: round_to_double_def)
next
  case False
  define e where "e = max (- 1022) \<lfloor>log 2 \<bar>x\<bar>\<rfloor>"
  have "\<bar>x\<bar> = of_int \<bar>m\<bar> * 2 powi j"
    by (simp add: x abs_mult)
  also have "\<dots> < 2 ^ 53 * 2 powi j"
    using m by (intro mult_strict_right_mono) (auto simp: of_int_less_iff [where 'a = real, symmetric] simp del: of_int_less_iff)
  also have "\<dots> = 2 powi (53 + j)"
    using pow2_split [of "53 + j" 53] by simp
  finally have "\<lfloor>log 2 \<bar>x\<bar>\<rfloor> < 53 + j"
    by (rule binade_less [OF False])
  then have le: "e - 52 \<le> j" using j by (simp add: e_def)
  define d where "d = nat (j - (e - 52))"
  have "j = int d + (e - 52)" using le by (simp add: d_def)
  then have "j - int d = e - 52" by simp
  with pow2_split [of j d] have pj: "(2::real) powi j = 2 ^ d * 2 powi (e - 52)"
    by (simp only:)
  have u: "ulp x = 2 powi (e - 52)" by (simp add: ulp_def e_def)
  have xe: "x = of_int (m * 2 ^ d) * 2 powi (e - 52)"
    unfolding x pj by simp
  have "x / ulp x = x / 2 powi (e - 52)"
    by (simp only: u)
  also have "\<dots> = of_int (m * 2 ^ d)"
    by (subst xe) simp
  finally have "x / ulp x = of_int (m * 2 ^ d)" .
  then have "round_half_even (x / ulp x) = m * 2 ^ d"
    by (simp only: round_half_even_of_int)
  then have "round_to_double x = of_int (m * 2 ^ d) * 2 powi (e - 52)"
    using False by (simp add: round_to_double_def u)
  also have "\<dots> = x"
    by (rule xe [symmetric])
  finally show ?thesis .
qed

lemma power_int_1024: "(2::real) powi 1024 = double_limit"
  unfolding double_limit_def using power_int_of_nat [of "2::real" 1024] by simp

text \<open>A rounded number that does not overflow is a finite double.\<close>

lemma round_to_double_in_doubles:
  assumes small: "\<bar>round_to_double x\<bar> < double_limit"
  shows "round_to_double x \<in> doubles"
proof (cases "x = 0")
  case True
  have "\<bar>0::int\<bar> < 2 ^ 53 \<and> - 1074 \<le> (0::int) \<and> (0::int) \<le> 971 \<and> (0::real) = of_int 0 * 2 powi 0"
    by simp
  moreover have "round_to_double x = 0"
    using True by (simp add: round_to_double_def)
  ultimately show ?thesis
    unfolding doubles_def by (simp only: mem_Collect_eq) blast
next
  case False
  define b where "b = \<lfloor>log 2 \<bar>x\<bar>\<rfloor>"
  define e where "e = max (- 1022) b"
  define q where "q = x / ulp x"
  define k where "k = round_half_even q"
  have u: "ulp x = 2 powi (e - 52)" by (simp add: ulp_def e_def b_def)
  have r: "round_to_double x = of_int k * 2 powi (e - 52)"
    using False by (simp add: round_to_double_def k_def q_def u)
  have e_lo: "- 1022 \<le> e" and b_le: "b \<le> e" by (simp_all add: e_def)
  have split: "(2::real) powi (e + 1) = 2 ^ 53 * 2 powi (e - 52)"
  proof -
    have "e + 1 - int 53 = e - 52" by simp
    with pow2_split [of "e + 1" 53] show ?thesis by (simp only:)
  qed
  have split': "(2::real) powi e = 2 ^ 52 * 2 powi (e - 52)"
  proof -
    have "e - int 52 = e - 52" by simp
    with pow2_split [of e 52] show ?thesis by (simp only:)
  qed
  have "\<bar>x\<bar> < 2 powi (b + 1)"
    unfolding b_def by (rule binade_bounds(2) [OF False])
  also have "\<dots> \<le> 2 powi (e + 1)"
    using b_le by (intro power_int_increasing) auto
  finally have "\<bar>x\<bar> < 2 ^ 53 * ulp x" by (simp only: split u)
  then have q_abs: "\<bar>q\<bar> < 2 ^ 53"
    using ulp_pos [of x] by (simp add: q_def pos_divide_less_eq)
  have "k \<le> 2 ^ 53"
    unfolding k_def using q_abs by (intro round_half_even_le) simp
  moreover have "- (2 ^ 53) \<le> k"
    unfolding k_def using q_abs by (intro round_half_even_ge) simp
  ultimately have k_le: "\<bar>k\<bar> \<le> 2 ^ 53" by simp
  have abs_r: "\<bar>round_to_double x\<bar> = of_int \<bar>k\<bar> * 2 powi (e - 52)"
    by (simp add: r abs_mult)
  have e_hi: "e \<le> 1023"
  proof (rule ccontr)
    assume "\<not> e \<le> 1023"
    then have big: "1024 \<le> e" by simp
    then have eb: "e = b" by (simp add: e_def max_def split: if_splits)
    have "2 powi e \<le> \<bar>x\<bar>"
      unfolding eb b_def by (rule binade_bounds(1) [OF False])
    then have "2 ^ 52 * ulp x \<le> \<bar>x\<bar>" by (simp only: split' u)
    then have "2 ^ 52 \<le> \<bar>q\<bar>"
      using ulp_pos [of x] by (simp add: q_def pos_le_divide_eq)
    then have "2 ^ 52 \<le> \<bar>k\<bar>"
    proof (cases "0 \<le> q")
      case True
      with \<open>2 ^ 52 \<le> \<bar>q\<bar>\<close> have "of_int (2 ^ 52) \<le> q" by simp
      then have "2 ^ 52 \<le> k" unfolding k_def by (rule round_half_even_ge)
      then show ?thesis by simp
    next
      case False
      with \<open>2 ^ 52 \<le> \<bar>q\<bar>\<close> have "q \<le> of_int (- (2 ^ 52))" by simp
      then have "k \<le> - (2 ^ 52)" unfolding k_def by (rule round_half_even_le)
      then show ?thesis by simp
    qed
    then have "(2::real) ^ 52 \<le> of_int \<bar>k\<bar>"
      by (metis of_int_le_iff of_int_numeral of_int_power)
    then have "2 ^ 52 * 2 powi (e - 52) \<le> \<bar>round_to_double x\<bar>"
      unfolding abs_r by (intro mult_right_mono) auto
    then have "2 powi e \<le> \<bar>round_to_double x\<bar>" by (simp only: split')
    moreover have "(2::real) powi 1024 \<le> 2 powi e"
      using big by (intro power_int_increasing) auto
    ultimately show False using small unfolding power_int_1024 by linarith
  qed
  show ?thesis
  proof (cases "\<bar>k\<bar> < 2 ^ 53")
    case True
    then have "\<bar>k\<bar> < 2 ^ 53 \<and> - 1074 \<le> e - 52 \<and> e - 52 \<le> 971
        \<and> round_to_double x = of_int k * 2 powi (e - 52)"
      using e_lo e_hi r by simp
    then show ?thesis unfolding doubles_def by blast
  next
    case False
    with k_le have k53: "\<bar>k\<bar> = 2 ^ 53" by simp
    then have "\<bar>round_to_double x\<bar> = 2 ^ 53 * 2 powi (e - 52)"
      by (simp add: abs_r)
    then have "\<bar>round_to_double x\<bar> = 2 powi (e + 1)" by (simp only: split)
    with small have "(2::real) powi (e + 1) < 2 powi 1024" by (simp only: power_int_1024)
    then have "e + 1 < 1024"
      by (rule power_int_le_imp_less_exp [rotated]) auto
    then have e_hi': "e - 51 \<le> 971" by simp
    have "(2::real) powi (e - 52) * 2 = 2 powi (e - 51)"
      using power_int_add_1 [of "2::real" "e - 52"] by (simp add: algebra_simps)
    then have half: "(2::real) ^ 53 * 2 powi (e - 52) = 2 ^ 52 * 2 powi (e - 51)"
      by simp
    have "k = 2 ^ 53 \<or> k = - (2 ^ 53)" using k53 by linarith
    then have "round_to_double x = of_int (k div 2) * 2 powi (e - 51)"
      using half by (auto simp: r)
    moreover have "\<bar>k div 2\<bar> < 2 ^ 53"
      using \<open>k = 2 ^ 53 \<or> k = - (2 ^ 53)\<close> by auto
    ultimately have "\<bar>k div 2\<bar> < 2 ^ 53 \<and> - 1074 \<le> e - 51 \<and> e - 51 \<le> 971
        \<and> round_to_double x = of_int (k div 2) * 2 powi (e - 51)"
      using e_lo e_hi' by simp
    then show ?thesis unfolding doubles_def by blast
  qed
qed

lemma int_in_doubles: "\<bar>n\<bar> < 2 ^ 53 \<Longrightarrow> of_int n \<in> doubles"
  unfolding doubles_def mem_Collect_eq
  by (rule exI [of _ n], rule exI [of _ 0]) simp

lemma round_to_double_int: "\<bar>n\<bar> < 2 ^ 53 \<Longrightarrow> round_to_double (of_int n) = of_int n"
  by (rule round_to_double_fixed [of n 0]) simp_all

lemma doubles_bound:
  assumes "x \<in> doubles"
  shows "\<bar>x\<bar> < double_limit"
proof -
  from assms obtain m j where m: "\<bar>m\<bar> < 2 ^ 53" and j: "j \<le> 971" and x: "x = of_int m * 2 powi j"
    unfolding doubles_def by blast
  have "\<bar>x\<bar> = of_int \<bar>m\<bar> * 2 powi j" by (simp add: x abs_mult)
  also have "\<dots> \<le> of_int \<bar>m\<bar> * 2 powi 971"
    using j by (intro mult_left_mono power_int_increasing) auto
  also have "\<dots> < 2 ^ 53 * 2 powi 971"
    using m by (intro mult_strict_right_mono) (auto simp: of_int_less_iff [where 'a = real, symmetric] simp del: of_int_less_iff)
  also have "\<dots> = 2 powi 1024"
    using pow2_split [of 1024 53] by simp
  finally show ?thesis by (simp only: power_int_1024)
qed

lemma doubles_fixed: "x \<in> doubles \<Longrightarrow> round_to_double x = x"
  unfolding doubles_def mem_Collect_eq
  by (elim exE conjE) (rule round_to_double_fixed)

lemma number_of_real_double [simp]: "number_of_real (real_of_double d) = Finite d"
  using doubles_bound [OF real_of_double [of d]] doubles_fixed [OF real_of_double [of d]]
  by (auto simp: number_of_real_def real_of_double_inverse)

lemma number_of_int_Finite:
  "\<bar>n\<bar> < 2 ^ 53 \<Longrightarrow> number_of_int n = Finite (double_of_real (of_int n))"
  using doubles_bound [OF int_in_doubles [of n]]
  by (auto simp: number_of_int_def number_of_real_def round_to_double_int)

lemma real_of_double_int:
  "\<bar>n\<bar> < 2 ^ 53 \<Longrightarrow> real_of_double (double_of_real (of_int n)) = of_int n"
  by (simp add: double_of_real_inverse int_in_doubles)

lemma number_of_int_not_NaN [simp]: "number_of_int n \<noteq> NotANumber"
  by (simp add: number_of_int_def number_of_real_def)

lemma number_of_real_not_NaN [simp]: "number_of_real x \<noteq> NotANumber"
  by (simp add: number_of_real_def)

lemma or_0_not_NaN [simp]: "or_0 v \<noteq> NotANumber"
  by (simp add: or_0_def split: option.splits)

lemma number_add_int:
  "\<bar>a\<bar> < 2 ^ 53 \<Longrightarrow> \<bar>b\<bar> < 2 ^ 53 \<Longrightarrow> \<bar>a + b\<bar> < 2 ^ 53 \<Longrightarrow>
     number_add (number_of_int a) (number_of_int b) = number_of_int (a + b)"
  unfolding number_of_int_def [of "a + b"] of_int_add
  by (simp add: number_of_int_Finite real_of_double_int)

lemma number_sub_int:
  "\<bar>a\<bar> < 2 ^ 53 \<Longrightarrow> \<bar>b\<bar> < 2 ^ 53 \<Longrightarrow> \<bar>a - b\<bar> < 2 ^ 53 \<Longrightarrow>
     number_sub (number_of_int a) (number_of_int b) = number_of_int (a - b)"
  unfolding number_of_int_def [of "a - b"] of_int_diff
  by (simp add: number_of_int_Finite real_of_double_int)

lemma number_lt_int:
  "\<bar>a\<bar> < 2 ^ 53 \<Longrightarrow> \<bar>b\<bar> < 2 ^ 53 \<Longrightarrow> number_lt (number_of_int a) (number_of_int b) = (a < b)"
  by (simp add: number_of_int_Finite real_of_double_int)

lemma number_of_int_eq:
  "\<bar>a\<bar> < 2 ^ 53 \<Longrightarrow> \<bar>b\<bar> < 2 ^ 53 \<Longrightarrow> (number_of_int a = number_of_int b) = (a = b)"
  by (simp add: number_of_int_Finite double_of_real_inject int_in_doubles)

lemma number_lt_NaN [simp]: "\<not> number_lt a NotANumber" "\<not> number_lt NotANumber b"
  by (cases a) simp_all

lemma number_add_NaN [simp]: "number_add a NotANumber = NotANumber" "number_add NotANumber b = NotANumber"
  by (cases a) simp_all

lemma number_sub_NaN [simp]: "number_sub a NotANumber = NotANumber" "number_sub NotANumber b = NotANumber"
  by (cases a) simp_all

lemma number_lt_irrefl [simp]: "\<not> number_lt x x"
  by (cases x) simp_all

lemma number_lt_asym: "number_lt x y \<Longrightarrow> \<not> number_lt y x"
  by (cases x; cases y) simp_all

lemma number_lt_trans: "number_lt x y \<Longrightarrow> number_lt y z \<Longrightarrow> number_lt x z"
  by (cases x; cases y; cases z) simp_all

lemma number_total:
  "x \<noteq> NotANumber \<Longrightarrow> y \<noteq> NotANumber \<Longrightarrow> number_lt x y \<or> x = y \<or> number_lt y x"
  by (cases x; cases y) (auto simp: real_of_double_inject [symmetric])

lemma number_add_0:
  "x \<noteq> NotANumber \<Longrightarrow> number_add x (number_of_int 0) = x"
  by (cases x) (simp_all add: number_of_int_Finite real_of_double_int [of 0, simplified])

lemma round_to_double_nonneg:
  assumes "0 \<le> x"
  shows "0 \<le> round_to_double x"
proof -
  have "of_int 0 \<le> x / ulp x" using assms ulp_pos [of x] by simp
  then have "0 \<le> round_half_even (x / ulp x)" by (rule round_half_even_ge)
  then show ?thesis using ulp_pos [of x] by (simp add: round_to_double_def)
qed

lemma number_of_real_nonneg:
  assumes "0 \<le> x"
  shows "\<not> number_lt (number_of_real x) (number_of_int 0)"
proof -
  have r: "0 \<le> round_to_double x" using assms by (rule round_to_double_nonneg)
  have l: "0 < double_limit" by (simp add: double_limit_def)
  show ?thesis
  proof (cases "double_limit \<le> round_to_double x")
    case True
    then show ?thesis by (simp add: number_of_real_def number_of_int_Finite)
  next
    case False
    then have "\<bar>round_to_double x\<bar> < double_limit" using r by simp
    then have "round_to_double x \<in> doubles" by (rule round_to_double_in_doubles)
    then have "real_of_double (double_of_real (round_to_double x)) = round_to_double x"
      by (rule double_of_real_inverse)
    then show ?thesis
      using False r l
      by (simp add: number_of_real_def number_of_int_Finite real_of_double_int [of 0, simplified])
  qed
qed

lemma number_add_nonneg:
  assumes "\<not> number_lt x (number_of_int 0)" and "\<not> number_lt y (number_of_int 0)"
  shows "\<not> number_lt (number_add x y) (number_of_int 0)"
proof (cases x; cases y)
  fix a b
  assume xy: "x = Finite a" "y = Finite b"
  with assms have "0 \<le> real_of_double a + real_of_double b"
    by (simp add: number_of_int_Finite real_of_double_int [of 0, simplified])
  then show ?thesis unfolding xy number_add.simps by (rule number_of_real_nonneg)
qed (use assms in \<open>simp_all add: number_of_int_Finite\<close>)

text \<open>
  The sum is a double: \<open>2 ^ 53 + 1\<close> lies halfway between two doubles and rounds to the
  even one, \<open>2 ^ 53\<close>.
\<close>

lemma two_53_in_doubles: "(9007199254740992::real) \<in> doubles"
proof -
  have "\<bar>1::int\<bar> < 2 ^ 53 \<and> - 1074 \<le> (53::int) \<and> (53::int) \<le> 971
      \<and> (9007199254740992::real) = of_int 1 * 2 powi 53"
    using pow2_nat [of 53] by simp
  then show ?thesis unfolding doubles_def by (simp only: mem_Collect_eq) blast
qed

lemma round_two_53_plus_1: "round_to_double 9007199254740993 = 9007199254740992"
proof -
  have "\<lfloor>log 2 (9007199254740993::real)\<rfloor> = 53"
    using floor_log_eq_powr_iff [of "9007199254740993::real" 2 53] by simp
  then have u: "ulp 9007199254740993 = 2"
    by (simp add: ulp_def)
  have f: "\<lfloor>9007199254740993 / (2::real)\<rfloor> = 4503599627370496"
    by (simp add: floor_eq_iff)
  have "round_half_even (9007199254740993 / 2) = 4503599627370496"
    unfolding round_half_even_def f by simp
  then show ?thesis
    unfolding round_to_double_def u by simp
qed

lemma number_add_rounds:
  "number_add (number_of_int 9007199254740992) (number_of_int 1) = number_of_int 9007199254740992"
proof -
  have lim: "\<bar>9007199254740992::real\<bar> < double_limit"
    using doubles_bound [OF two_53_in_doubles] .
  have n: "number_of_int 9007199254740992 = Finite (double_of_real 9007199254740992)"
    using lim doubles_fixed [OF two_53_in_doubles]
    by (auto simp: number_of_int_def number_of_real_def)
  have "number_add (number_of_int 9007199254740992) (number_of_int 1) = number_of_real 9007199254740993"
    by (simp add: n number_of_int_Finite real_of_double_int [of 1, simplified]
          double_of_real_inverse [OF two_53_in_doubles])
  also have "\<dots> = Finite (double_of_real 9007199254740992)"
    using lim unfolding number_of_real_def round_two_53_plus_1 by auto
  finally show ?thesis by (simp only: n)
qed

subsection \<open>Facts about maps and comparisons\<close>

lemma map_of_map_set: "map_of (map_set m k v) = (map_of m)(k \<mapsto> v)"
  by (induction m) (auto simp: fun_eq_iff)

lemma map_get_map_set: "map_get (map_set m k v) k' = (if k' = k then Some v else map_get m k')"
  by (simp add: map_get_def map_of_map_set)

lemma map_has_map_set: "map_has (map_set m k v) k' = (k' = k \<or> map_has m k')"
  by (simp add: map_has_def map_of_map_set)

lemma get_or_0_not_NaN [simp]: "get_or_0 m k \<noteq> NotANumber"
  by (simp add: get_or_0_def)

lemma or_0_Some: "v \<noteq> NotANumber \<Longrightarrow> or_0 (Some v) = v"
  by (auto simp: or_0_def)

lemma get_or_0_map_set:
  "v \<noteq> NotANumber \<Longrightarrow> get_or_0 (map_set m k v) k' = (if k' = k then v else get_or_0 m k')"
  by (simp add: get_or_0_def map_get_map_set or_0_Some)

lemma get_or_0_map_set_other:
  "k' \<noteq> k \<Longrightarrow> get_or_0 (map_set m k v) k' = get_or_0 m k'"
  by (simp add: get_or_0_def map_get_map_set)

lemmas number_int_simps = number_add_int number_sub_int number_lt_int number_of_int_eq

lemma number_eq_iff: "b \<noteq> NotANumber \<Longrightarrow> number_eq a b = (a = b)"
  by (auto simp: number_eq_def)

lemma number_lte_iff:
  "f \<noteq> NotANumber \<Longrightarrow> number_lte t f = (\<not> number_gt t f \<and> t \<noteq> NotANumber)"
  by (cases t; cases f) (auto simp: number_lte_def number_gt_def number_eq_def real_of_double_inject [symmetric])

lemma number_lt_iff:
  "f \<noteq> NotANumber \<Longrightarrow> number_lt t f = (\<not> number_gte t f \<and> t \<noteq> NotANumber)"
  by (cases t; cases f) (auto simp: number_gte_def number_gt_def number_eq_def real_of_double_inject [symmetric])

subsection \<open>Properties of applyOperation\<close>

text \<open>
  C2, as stated, fails in both directions. An operation with \<open>from = version[actor]\<close>
  and \<open>to > from\<close> is still refused when it is a \<open>MultiIncrement\<close> of a negative value
  (the third check of the source, \<open>operation.value < 0\<close>): on an empty model
  \<open>MultiIncrement(-1, 'me', 0, 1)\<close> returns false. And an operation is accepted
  without \<open>to > from\<close> when \<open>to\<close> is NaN, for which the second check
  \<open>to <= from\<close> is false: on an empty model \<open>MultiIncrement(1, 'me', 0, NaN)\<close>
  returns true.
\<close>

theorem C2_applyOperation_iff_counterexample:
  "vfrom (op_version (newMultiIncrement (number_of_int (- 1)) ''me'' (number_of_int 0) (number_of_int 1)))
       = get_or_0 (version new_model) ''me''
   \<and> number_gt (number_of_int 1) (number_of_int 0)
   \<and> fst (applyOperation new_model
             (newMultiIncrement (number_of_int (- 1)) ''me'' (number_of_int 0) (number_of_int 1))) = False
   \<and> vfrom (op_version (newMultiIncrement (number_of_int 1) ''me'' (number_of_int 0) NotANumber))
       = get_or_0 (version new_model) ''me''
   \<and> \<not> number_gt NotANumber (number_of_int 0)
   \<and> fst (applyOperation new_model
             (newMultiIncrement (number_of_int 1) ''me'' (number_of_int 0) NotANumber)) = True"
  by (simp add: newMultiIncrement_def new_model_def applyOperation_def get_or_0_def map_get_def
        or_0_def number_eq_def number_lte_def number_gt_def number_int_simps)

text \<open>The three checks as the source writes them, and the two writes.\<close>

lemma applyOperation_accepts:
  "fst (applyOperation model operation) \<longleftrightarrow>
      number_eq (vfrom (op_version operation)) (get_or_0 (version model) (actor operation))
      \<and> \<not> number_lte (vto (op_version operation)) (vfrom (op_version operation))
      \<and> \<not> number_lt (increment_of operation) (number_of_int 0)"
  by (cases operation) (auto simp: applyOperation_def increment_of_def number_int_simps)

lemma applyOperation_writes:
  assumes "fst (applyOperation model operation)"
  shows "snd (applyOperation model operation)
     = model\<lparr>values' := map_set (values' model) (actor operation)
                            (number_add (get_or_0 (values' model) (actor operation)) (increment_of operation)),
             version := map_set (version model) (actor operation) (vto (op_version operation))\<rparr>"
  using assms by (cases operation) (auto simp: applyOperation_def increment_of_def split: if_splits)

text \<open>
  C2, amended: \<open>applyOperation\<close> returns true if and only if \<open>from\<close> equals the model's
  current \<open>version[actor]\<close> (0 when absent or NaN), \<open>to > from\<close> or \<open>to\<close> is NaN, and,
  for a \<open>MultiIncrement\<close>, the value is at least 0 or NaN. On success \<open>values[actor]\<close>
  becomes the sum, as a double, of its old value (0 when absent or NaN) and the
  operation's value (1 for \<open>Increment\<close>), \<open>version[actor]\<close> becomes \<open>to\<close>, and the
  entries of every other actor read as before; otherwise it returns false.
\<close>

theorem C2_applyOperation_iff:
  "(fst (applyOperation model operation) \<longleftrightarrow>
      vfrom (op_version operation) = get_or_0 (version model) (actor operation)
      \<and> (number_gt (vto (op_version operation)) (vfrom (op_version operation))
           \<or> vto (op_version operation) = NotANumber)
      \<and> (number_gte (increment_of operation) (number_of_int 0)
           \<or> increment_of operation = NotANumber))
   \<and> (fst (applyOperation model operation) \<longrightarrow>
        map_get (values' (snd (applyOperation model operation))) (actor operation)
          = Some (number_add (get_or_0 (values' model) (actor operation)) (increment_of operation))
      \<and> map_get (version (snd (applyOperation model operation))) (actor operation)
          = Some (vto (op_version operation))
      \<and> (\<forall>k. k \<noteq> actor operation \<longrightarrow>
            map_get (values' (snd (applyOperation model operation))) k = map_get (values' model) k
          \<and> map_get (version (snd (applyOperation model operation))) k = map_get (version model) k))"
proof -
  have "number_eq (vfrom (op_version operation)) (get_or_0 (version model) (actor operation))
      \<and> \<not> number_lte (vto (op_version operation)) (vfrom (op_version operation))
      \<and> \<not> number_lt (increment_of operation) (number_of_int 0)
    \<longleftrightarrow> vfrom (op_version operation) = get_or_0 (version model) (actor operation)
      \<and> (number_gt (vto (op_version operation)) (vfrom (op_version operation))
           \<or> vto (op_version operation) = NotANumber)
      \<and> (number_gte (increment_of operation) (number_of_int 0)
           \<or> increment_of operation = NotANumber)"
    by (auto simp: number_eq_iff number_lte_iff number_lt_iff [of "number_of_int 0"])
  then show ?thesis
    by (auto simp: applyOperation_accepts applyOperation_writes map_get_map_set)
qed

theorem C2_applyOperation_iff_witness:
  "fst (applyOperation new_model (newMultiIncrement (number_of_int 7) ''me'' (number_of_int 0) (number_of_int 1)))
   \<and> map_get (values' (snd (applyOperation new_model
         (newMultiIncrement (number_of_int 7) ''me'' (number_of_int 0) (number_of_int 1))))) ''me''
       = Some (number_of_int 7)
   \<and> map_get (version (snd (applyOperation new_model
         (newMultiIncrement (number_of_int 7) ''me'' (number_of_int 0) (number_of_int 1))))) ''me''
       = Some (number_of_int 1)
   \<and> map_get (values' (snd (applyOperation new_model
         (newMultiIncrement (number_of_int 7) ''me'' (number_of_int 0) (number_of_int 1))))) ''them''
       = None"
  using C2_applyOperation_iff
          [of new_model "newMultiIncrement (number_of_int 7) ''me'' (number_of_int 0) (number_of_int 1)"]
  by (simp add: newMultiIncrement_def new_model_def increment_of_def get_or_0_def map_get_def
        or_0_def number_gt_def number_gte_def number_int_simps)

text \<open>
  C5, as stated, fails: the source refuses a \<open>MultiIncrement\<close> only when its value is
  below 0. \<open>MultiIncrement(0, 'me', 0, 1)\<close> on an empty model returns true and the model
  gains the entries \<open>values['me'] = 0\<close> and \<open>version['me'] = 1\<close>.
\<close>

theorem C5_zero_increment_counterexample:
  "applyOperation new_model (newMultiIncrement (number_of_int 0) ''me'' (number_of_int 0) (number_of_int 1))
     = (True, \<lparr>values' = [(''me'', number_of_int 0)], version = [(''me'', number_of_int 1)]\<rparr>)
   \<and> \<lparr>values' = [(''me'', number_of_int 0)], version = [(''me'', number_of_int 1)]\<rparr> \<noteq> new_model"
  by (simp add: newMultiIncrement_def new_model_def applyOperation_def get_or_0_def map_get_def
        or_0_def number_eq_def number_lte_def number_int_simps)

text \<open>
  C5, amended: with \<open>from = version[actor]\<close> and \<open>to > from\<close>, a \<open>MultiIncrement\<close> whose
  value is negative is rejected (false is returned and the model is unchanged), and one
  whose value is 0 is accepted: true is returned, \<open>values[actor]\<close> is set to its old
  value (0 when absent or NaN) and \<open>version[actor]\<close> advances to \<open>to\<close>.
\<close>

theorem C5_multiIncrement_value_guard:
  assumes "f = get_or_0 (version model) a" and "number_gt t f"
  shows "(number_lt v (number_of_int 0) \<longrightarrow>
            applyOperation model (newMultiIncrement v a f t) = (False, model))
       \<and> (v = number_of_int 0 \<longrightarrow> fst (applyOperation model (newMultiIncrement v a f t))
            \<and> map_get (values' (snd (applyOperation model (newMultiIncrement v a f t)))) a
                = Some (get_or_0 (values' model) a)
            \<and> map_get (version (snd (applyOperation model (newMultiIncrement v a f t)))) a = Some t)"
proof -
  have "\<not> number_lte t f"
    using assms by (simp add: number_lte_iff)
  then show ?thesis
    using assms(1)
    by (simp add: applyOperation_def newMultiIncrement_def map_get_map_set number_eq_iff number_add_0)
qed

theorem C5_multiIncrement_value_guard_witness:
  "applyOperation new_model (newMultiIncrement (number_of_int (- 3)) ''me'' (number_of_int 0) (number_of_int 1))
     = (False, new_model)
   \<and> fst (applyOperation new_model
            (newMultiIncrement (number_of_int 0) ''me'' (number_of_int 0) (number_of_int 1)))
   \<and> map_get (version (snd (applyOperation new_model
            (newMultiIncrement (number_of_int 0) ''me'' (number_of_int 0) (number_of_int 1))))) ''me''
       = Some (number_of_int 1)"
  using C5_multiIncrement_value_guard
          [of "number_of_int 0" new_model "''me''" "number_of_int 1" "number_of_int (- 3)"]
        C5_multiIncrement_value_guard
          [of "number_of_int 0" new_model "''me''" "number_of_int 1" "number_of_int 0"]
  by (simp add: new_model_def get_or_0_def map_get_def or_0_def number_gt_def number_int_simps)

lemma applyOperation_rejected:
  "\<not> fst (applyOperation model operation) \<Longrightarrow> snd (applyOperation model operation) = model"
  by (cases operation) (auto simp: applyOperation_def split: if_splits)

text \<open>
  C10: \<open>applyOperation\<close> is atomic. Whenever it returns false, the model after the call
  is the model before it: all three checks precede the two writes.
\<close>

theorem C10_applyOperation_atomic:
  "fst (applyOperation model operation) = False \<Longrightarrow> snd (applyOperation model operation) = model"
  by (cases operation) (auto simp: applyOperation_def split: if_splits)

theorem C10_applyOperation_atomic_witness:
  "fst (applyOperation \<lparr>values' = [(''me'', number_of_int 1)], version = [(''me'', number_of_int 1)]\<rparr>
          (newIncrement ''me'' (number_of_int 0))) = False
   \<and> snd (applyOperation \<lparr>values' = [(''me'', number_of_int 1)], version = [(''me'', number_of_int 1)]\<rparr>
            (newIncrement ''me'' (number_of_int 0)))
       = \<lparr>values' = [(''me'', number_of_int 1)], version = [(''me'', number_of_int 1)]\<rparr>"
proof -
  have rejected:
    "fst (applyOperation \<lparr>values' = [(''me'', number_of_int 1)], version = [(''me'', number_of_int 1)]\<rparr>
            (newIncrement ''me'' (number_of_int 0))) = False"
    by (simp add: applyOperation_def newIncrement_def get_or_0_def map_get_def or_0_def
          number_eq_def number_int_simps)
  from C10_applyOperation_atomic [OF rejected] rejected show ?thesis by simp
qed

subsection \<open>merge\<close>

text \<open>
  The two places where \<open>merge\<close> throws a \<open>CRDTError\<close>: "Divergent versions
  encountered when merging CRDTCount models" and "CRDTCount model has version but no
  value for key ...".
\<close>

datatype CRDTError = DivergentVersions | VersionWithoutValue string

text \<open>
  \<open>merge\<close> works on two objects, the receiver and its argument, and writes to the
  receiver's maps while it reads the argument's (\<open>other.getData()\<close> returns the
  argument's own model, not a copy). The objects therefore live in a store that maps a
  reference to the model of the \<open>CRDTCount\<close> at that reference; \<open>X.merge(X)\<close> is
  the call with both references equal.
\<close>

type_synonym heap = "nat \<Rightarrow> CountData"

text \<open>
  The body of the first loop of \<open>merge\<close> for one key of the argument: either it throws,
  or it yields the receiver's model after the body together with the operations the
  body pushed onto \<open>thisChanges\<close> and onto \<open>otherChanges\<close>.
\<close>

definition merge_key ::
  "CountData \<Rightarrow> CountData \<Rightarrow> string
     \<Rightarrow> CRDTError + CountData \<times> CountOperation list \<times> CountOperation list" where
  "merge_key thisModel otherRaw key =
     (let thisValue = get_or_0 (values' thisModel) key;
          otherValue = get_or_0 (values' otherRaw) key;
          thisVersion = get_or_0 (version thisModel) key;
          otherVersion = get_or_0 (version otherRaw) key
      in if number_gt thisValue otherValue then
           (if number_gte otherVersion thisVersion then Inl DivergentVersions
            else Inr (thisModel, [],
                      [newMultiIncrement (number_sub thisValue otherValue) key otherVersion thisVersion]))
         else if number_gt otherValue thisValue then
           (if number_gte thisVersion otherVersion then Inl DivergentVersions
            else Inr (thisModel\<lparr>values' := map_set (values' thisModel) key otherValue,
                                 version := map_set (version thisModel) key otherVersion\<rparr>,
                      [newMultiIncrement (number_sub otherValue thisValue) key thisVersion otherVersion],
                      []))
         else Inr (thisModel, [], []))"

lemma merge_key_self: "merge_key m m key = Inr (m, [], [])"
  by (simp add: merge_key_def number_gt_def)

text \<open>
  The first loop, \<open>for (const key of otherRaw.values.keys())\<close>. A \<open>Map\<close> iterator is
  live: it visits the entries in insertion order, including entries added while it runs.
  The loop is therefore indexed by the position \<open>i\<close> in the key list of the argument's
  map as it is in the current store. The store is returned also when the loop throws,
  since the writes made before the throw stay.
\<close>

function merge_other_keys ::
  "heap \<Rightarrow> nat \<Rightarrow> nat \<Rightarrow> nat \<Rightarrow> CountOperation list \<Rightarrow> CountOperation list
     \<Rightarrow> heap \<times> (CRDTError + CountOperation list \<times> CountOperation list)" where
  "merge_other_keys h this other i thisChanges otherChanges =
     (if i < length (map_keys (values' (h other))) then
        (case merge_key (h this) (h other) (map_keys (values' (h other)) ! i) of
           Inl e \<Rightarrow> (h, Inl e)
         | Inr (thisModel, thisOps, otherOps) \<Rightarrow>
             merge_other_keys (h(this := thisModel)) this other (i + 1)
               (thisChanges @ thisOps) (otherChanges @ otherOps))
      else (h, Inr (thisChanges, otherChanges)))"
  by pat_completeness auto
termination
proof (relation "measure (\<lambda>(h, this, other, i, tc, oc). length (map_keys (values' (h other))) - i)",
       goal_cases)
  case 1
  show ?case by simp
next
  case (2 h this other i thisChanges otherChanges x2 x y xa ya)
  then show ?case
    by (cases "other = this") (auto simp: merge_key_self)
qed

declare merge_other_keys.simps [simp del]

text \<open>
  The second loop, \<open>for (const key of this.model.values.keys())\<close>; its body writes to
  neither model. The pushed operation reads \<open>this.model.values.get(key)\<close> and
  \<open>this.model.version.get(key)\<close> without a default, so a stored NaN is passed on as
  NaN; its \<open>from\<close> is the literal 0.
\<close>

fun merge_this_keys ::
  "CountData \<Rightarrow> CountData \<Rightarrow> string list \<Rightarrow> CountOperation list \<Rightarrow> CRDTError + CountOperation list" where
  "merge_this_keys thisModel otherRaw [] otherChanges = Inr otherChanges"
| "merge_this_keys thisModel otherRaw (key # keys) otherChanges =
     (if map_has (values' otherRaw) key then merge_this_keys thisModel otherRaw keys otherChanges
      else if map_has (version otherRaw) key then Inl (VersionWithoutValue key)
      else merge_this_keys thisModel otherRaw keys
             (otherChanges @ [MultiIncrement (get_or_undefined (values' thisModel) key) key
                                (VersionInfo (number_of_int 0) (get_or_undefined (version thisModel) key))]))"

text \<open>The returned pair of operation lists, \<open>{modelChange, otherChange}\<close>.\<close>

record CountChanges =
  modelChange :: "CountOperation list"
  otherChange :: "CountOperation list"

definition merge :: "heap \<Rightarrow> nat \<Rightarrow> nat \<Rightarrow> heap \<times> (CRDTError + CountChanges)" where
  "merge h this other =
     (case merge_other_keys h this other 0 [] [] of
        (h', Inl e) \<Rightarrow> (h', Inl e)
      | (h', Inr (thisChanges, otherChanges)) \<Rightarrow>
          (case merge_this_keys (h' this) (h' other) (map_keys (values' (h' this))) otherChanges of
             Inl e \<Rightarrow> (h', Inl e)
           | Inr otherChanges' \<Rightarrow>
               (h', Inr \<lparr>modelChange = thisChanges, otherChange = otherChanges'\<rparr>)))"

lemma merge_other_keys_unfold:
  "merge_other_keys h this other i tc oc =
     (if i < length (map_keys (values' (h other))) then
        (case merge_key (h this) (h other) (map_keys (values' (h other)) ! i) of
           Inl e \<Rightarrow> (h, Inl e)
         | Inr r \<Rightarrow>
             merge_other_keys (h(this := fst r)) this other (Suc i)
               (tc @ fst (snd r)) (oc @ snd (snd r)))
      else (h, Inr (tc, oc)))"
  by (subst merge_other_keys.simps) (simp split: sum.splits prod.splits)

lemma merge_other_keys_step_induct [case_names stop throw step]:
  fixes this other :: nat
    and P :: "heap \<Rightarrow> nat \<Rightarrow> CountOperation list \<Rightarrow> CountOperation list \<Rightarrow> bool"
  assumes stop: "\<And>h i tc oc. \<not> i < length (map_keys (values' (h other))) \<Longrightarrow> P h i tc oc"
    and throw: "\<And>h i tc oc e. i < length (map_keys (values' (h other))) \<Longrightarrow>
        merge_key (h this) (h other) (map_keys (values' (h other)) ! i) = Inl e \<Longrightarrow> P h i tc oc"
    and step: "\<And>h i tc oc m a b. i < length (map_keys (values' (h other))) \<Longrightarrow>
        merge_key (h this) (h other) (map_keys (values' (h other)) ! i) = Inr (m, a, b) \<Longrightarrow>
        P (h(this := m)) (Suc i) (tc @ a) (oc @ b) \<Longrightarrow> P h i tc oc"
  shows "P h i tc oc"
proof -
  have "this' = this \<and> other' = other \<longrightarrow> P h i tc oc" for this' other'
  proof (induction h this' other' i tc oc rule: merge_other_keys.induct)
    case (1 h this' other' i tc oc)
    show ?case
    proof (intro impI, elim conjE)
      assume eqs: "this' = this" "other' = other"
      show "P h i tc oc"
      proof (cases "i < length (map_keys (values' (h other)))")
        case False
        then show ?thesis by (rule stop)
      next
        case True
        show ?thesis
        proof (cases "merge_key (h this) (h other) (map_keys (values' (h other)) ! i)")
          case (Inl e)
          with True show ?thesis by (rule throw)
        next
          case (Inr r)
          obtain m a b where r: "r = (m, a, b)" by (cases r) auto
          have key: "merge_key (h this) (h other) (map_keys (values' (h other)) ! i) = Inr (m, a, b)"
            using Inr r by simp
          have "this' = this \<and> other' = other \<longrightarrow> P (h(this' := m)) (i + 1) (tc @ a) (oc @ b)"
            by (rule "1.IH" [of "(m, a, b)" m "(a, b)" a b])
               (simp_all only: eqs True key)
          then have "P (h(this := m)) (Suc i) (tc @ a) (oc @ b)"
            using eqs by simp
          with True key show ?thesis by (rule step)
        qed
      qed
    qed
  qed
  then show ?thesis by blast
qed

lemma merge_other_keys_frame:
  "x \<noteq> this \<Longrightarrow> fst (merge_other_keys h this other i tc oc) x = h x"
proof (induction h i tc oc rule: merge_other_keys_step_induct [where this = this and other = other])
  case (stop h i tc oc)
  then show ?case by (subst merge_other_keys_unfold) simp
next
  case (throw h i tc oc e)
  then show ?case by (subst merge_other_keys_unfold) simp
next
  case (step h i tc oc m ops1 ops2)
  have "fst (merge_other_keys h this other i tc oc) x
      = fst (merge_other_keys (h(this := m)) this other (Suc i) (tc @ ops1) (oc @ ops2)) x"
    by (subst merge_other_keys_unfold) (simp add: step.hyps)
  also have "\<dots> = (h(this := m)) x"
    by (rule step.IH [OF step.prems])
  also have "\<dots> = h x"
    using step.prems by simp
  finally show ?case .
qed

lemma merge_other_keys_alias:
  "merge_other_keys h this this i tc oc = (h, Inr (tc, oc))"
proof (induction h i tc oc rule: merge_other_keys_step_induct [where this = this and other = this])
  case (stop h i tc oc)
  then show ?case by (subst merge_other_keys_unfold) simp
next
  case (throw h i tc oc e)
  then show ?case by (simp add: merge_key_self)
next
  case (step h i tc oc m ops1 ops2)
  then show ?case by (subst merge_other_keys_unfold) (simp add: merge_key_self fun_upd_idem)
qed

text \<open>
  C9: \<open>merge\<close> never modifies its argument. In the store after \<open>this.merge(other)\<close>,
  whether the call returned or threw, the model of \<open>other\<close> (its values map and its
  version map) is the one it had before the call. This includes \<open>X.merge(X)\<close>, where
  the receiver is the argument and no branch of the first loop writes.
\<close>

theorem C9_merge_keeps_other: "fst (merge h this other) other = h other"
proof (cases "other = this")
  case True
  then show ?thesis
    by (simp add: merge_def merge_other_keys_alias split: sum.splits)
next
  case False
  then have "fst (merge_other_keys h this other 0 [] []) other = h other"
    by (rule merge_other_keys_frame)
  then show ?thesis
    by (auto simp: merge_def split: prod.splits sum.splits)
qed

subsection \<open>Replicas: reachable stores and their invariant\<close>

text \<open>\<open>applyOperation\<close> called on the object at reference \<open>this\<close>.\<close>

definition applyOperation_at :: "heap \<Rightarrow> nat \<Rightarrow> CountOperation \<Rightarrow> bool \<times> heap" where
  "applyOperation_at h this operation =
     (fst (applyOperation (h this) operation), h(this := snd (applyOperation (h this) operation)))"

text \<open>A caller applying a list of operations, in order, to the object at \<open>this\<close>.\<close>

fun applyOperations_at :: "heap \<Rightarrow> nat \<Rightarrow> CountOperation list \<Rightarrow> heap" where
  "applyOperations_at h this [] = h"
| "applyOperations_at h this (operation # ops) =
     applyOperations_at (snd (applyOperation_at h this operation)) this ops"

text \<open>
  Two fresh replicas, at references 0 and 1, after the first has applied the operations
  \<open>xs\<close> and the second the operations \<open>ys\<close>.
\<close>

definition two_replicas :: "CountOperation list \<Rightarrow> CountOperation list \<Rightarrow> heap" where
  "two_replicas xs ys = applyOperations_at (applyOperations_at (\<lambda>_. new_model) 0 xs) 1 ys"

text \<open>
  The model of a \<open>CRDTCount\<close> is private and starts empty, so a program builds its
  stores from the store of fresh objects by calls of \<open>applyOperation\<close> and \<open>merge\<close>
  (whether \<open>merge\<close> returns or throws: the store it leaves behind is kept either way).
  \<open>reachable\<close> holds of the stores built in this way with operations whose \<open>to\<close> is
  not NaN.
\<close>

inductive reachable :: "heap \<Rightarrow> bool" where
  init: "reachable (\<lambda>_. new_model)"
| apply_op: "reachable h \<Longrightarrow> vto (op_version operation) \<noteq> NotANumber \<Longrightarrow>
     reachable (snd (applyOperation_at h this operation))"
| merged: "reachable h \<Longrightarrow> reachable (fst (merge h this other))"

text \<open>
  What every model of a reachable store satisfies: both maps have the same keys in the
  same order, no key twice, no value is below 0 and every version is above 0.
\<close>

definition count_inv :: "CountData \<Rightarrow> bool" where
  "count_inv model \<longleftrightarrow>
     map_keys (values' model) = map_keys (version model)
     \<and> distinct (map_keys (values' model))
     \<and> list_all (\<lambda>(k, v). \<not> number_lt v (number_of_int 0)) (values' model)
     \<and> list_all (\<lambda>(k, v). number_lt (number_of_int 0) v) (version model)"

text \<open>
  When receiver and argument are different objects the first loop never changes the
  key list it iterates over, and is the following recursion over that list.
\<close>

fun merge_keys ::
  "CountData \<Rightarrow> CountData \<Rightarrow> string list \<Rightarrow> CountOperation list \<Rightarrow> CountOperation list
     \<Rightarrow> CountData \<times> (CRDTError + CountOperation list \<times> CountOperation list)" where
  "merge_keys t o' [] tc oc = (t, Inr (tc, oc))"
| "merge_keys t o' (k # ks) tc oc =
     (case merge_key t o' k of
        Inl e \<Rightarrow> (t, Inl e)
      | Inr (t', a, b) \<Rightarrow> merge_keys t' o' ks (tc @ a) (oc @ b))"

text \<open>
  Replica \<open>x\<close> is ahead of replica \<open>y\<close> in value for actor \<open>a\<close> without being ahead
  in version (entries that are absent or NaN read as 0, as in \<open>merge\<close>).
\<close>

definition divergent_at :: "CountData \<Rightarrow> CountData \<Rightarrow> string \<Rightarrow> bool" where
  "divergent_at x y a \<longleftrightarrow>
     number_gt (get_or_0 (values' x) a) (get_or_0 (values' y) a)
     \<and> \<not> number_gt (get_or_0 (version x) a) (get_or_0 (version y) a)"

lemma merge_other_keys_pure:
  assumes "other \<noteq> this"
  shows "merge_other_keys h this other i tc oc =
     (h(this := fst (merge_keys (h this) (h other) (drop i (map_keys (values' (h other)))) tc oc)),
      snd (merge_keys (h this) (h other) (drop i (map_keys (values' (h other)))) tc oc))"
proof (induction h i tc oc rule: merge_other_keys_step_induct [where this = this and other = other])
  case (stop h i tc oc)
  then show ?case by (subst merge_other_keys_unfold) simp
next
  case (throw h i tc oc e)
  then show ?case
    by (subst merge_other_keys_unfold) (simp flip: Cons_nth_drop_Suc)
next
  case (step h i tc oc m ops1 ops2)
  let ?ks = "map_keys (values' (h other))"
  have first: "merge_other_keys h this other i tc oc
      = merge_other_keys (h(this := m)) this other (Suc i) (tc @ ops1) (oc @ ops2)"
    by (subst merge_other_keys_unfold) (simp add: step.hyps)
  have e1: "(h(this := m)) this = m" by simp
  have e2: "(h(this := m)) other = h other" using assms by simp
  have dr: "drop i ?ks = ?ks ! i # drop (Suc i) ?ks"
    using step.hyps(1) by (simp add: Cons_nth_drop_Suc)
  have mk: "merge_keys (h this) (h other) (drop i ?ks) tc oc
      = merge_keys m (h other) (drop (Suc i) ?ks) (tc @ ops1) (oc @ ops2)"
    unfolding dr by (simp add: step.hyps(2))
  show ?case
    unfolding first step.IH e1 e2 mk fun_upd_upd by (rule refl)
qed

lemma map_keys_map_set:
  "map_keys (map_set m k v) = (if k \<in> set (map_keys m) then map_keys m else map_keys m @ [k])"
  by (induction m) (auto simp: map_keys_def rev_image_eqI)

lemma list_all_map_set:
  "list_all P m \<Longrightarrow> P (k, v) \<Longrightarrow> list_all P (map_set m k v)"
  by (induction m) auto

lemma map_has_keys: "map_has m k = (k \<in> set (map_keys m))"
  by (induction m) (auto simp: map_has_def map_keys_def)

lemma get_or_0_nonneg:
  "list_all (\<lambda>(k, v). \<not> number_lt v (number_of_int 0)) m \<Longrightarrow> \<not> number_lt (get_or_0 m k) (number_of_int 0)"
  by (induction m) (auto simp: get_or_0_def map_get_def or_0_def)

lemma get_or_0_nonneg':
  "list_all (\<lambda>(k, v). number_lt (number_of_int 0) v) m \<Longrightarrow> \<not> number_lt (get_or_0 m k) (number_of_int 0)"
  by (induction m) (auto simp: get_or_0_def map_get_def or_0_def dest: number_lt_asym)

lemma get_or_0_absent: "k \<notin> set (map_keys m) \<Longrightarrow> get_or_0 m k = number_of_int 0"
  by (induction m) (auto simp: get_or_0_def map_get_def map_keys_def or_0_def)

lemma get_or_0_pos:
  "list_all (\<lambda>(k, v). number_lt (number_of_int 0) v) m \<Longrightarrow> k \<in> set (map_keys m) \<Longrightarrow>
     number_lt (number_of_int 0) (get_or_0 m k)"
  by (induction m) (auto simp: get_or_0_def map_get_def map_keys_def or_0_def)

lemma number_above:
  assumes "\<not> number_lt f z" and "number_lt f t" and "z \<noteq> NotANumber"
  shows "number_lt z t"
proof -
  have "f \<noteq> NotANumber" using assms(2) by auto
  then have "number_lt z f \<or> z = f"
    using number_total [of z f] assms(1,3) by auto
  then show ?thesis using assms(2) by (auto intro: number_lt_trans)
qed

lemma number_not_below:
  assumes "\<not> number_lt f z" and "number_lt f t"
  shows "\<not> number_lt t z"
  using assms by (auto dest: number_lt_trans)

lemma number_gt_of_not_gte:
  "a \<noteq> NotANumber \<Longrightarrow> b \<noteq> NotANumber \<Longrightarrow> \<not> number_gte a b \<Longrightarrow> number_lt a b"
  using number_total [of a b] by (auto simp: number_gte_def number_gt_def number_eq_def)

lemma count_inv_new_model: "count_inv new_model"
  by (simp add: count_inv_def new_model_def map_keys_def)

lemma count_inv_set:
  assumes "count_inv m" "\<not> number_lt v (number_of_int 0)" "number_lt (number_of_int 0) w"
  shows "count_inv (m\<lparr>values' := map_set (values' m) k v, version := map_set (version m) k w\<rparr>)"
  using assms by (auto simp: count_inv_def map_keys_map_set list_all_map_set)

lemma count_inv_applyOperation:
  assumes "count_inv m" and "vto (op_version operation) \<noteq> NotANumber"
  shows "count_inv (snd (applyOperation m operation))"
proof (cases "fst (applyOperation m operation)")
  case False
  then show ?thesis using assms by (simp add: applyOperation_rejected)
next
  case True
  let ?f = "vfrom (op_version operation)" and ?t = "vto (op_version operation)"
  have f: "?f = get_or_0 (version m) (actor operation)"
    and t: "\<not> number_lte ?t ?f"
    and i: "\<not> number_lt (increment_of operation) (number_of_int 0)"
    using True by (auto simp: applyOperation_accepts number_eq_iff)
  have v: "\<not> number_lt (get_or_0 (values' m) (actor operation)) (number_of_int 0)"
    and w: "\<not> number_lt ?f (number_of_int 0)"
    using assms(1) by (auto simp: f count_inv_def get_or_0_nonneg get_or_0_nonneg')
  have "number_lt ?f ?t"
    using t assms(2) by (simp add: number_lte_iff f number_gt_def)
  with w have "number_lt (number_of_int 0) ?t" by (rule number_above) simp
  moreover have "\<not> number_lt (number_add (get_or_0 (values' m) (actor operation)) (increment_of operation))
      (number_of_int 0)"
    using v i by (rule number_add_nonneg)
  ultimately show ?thesis
    unfolding applyOperation_writes [OF True] by (intro count_inv_set assms(1))
qed

lemma merge_key_count_inv:
  assumes "count_inv t" and "merge_key t o' k = Inr (t', a, b)"
  shows "count_inv t'"
proof -
  have v: "\<not> number_lt (get_or_0 (values' t) k) (number_of_int 0)"
    and w: "\<not> number_lt (get_or_0 (version t) k) (number_of_int 0)"
    using assms(1) by (auto simp: count_inv_def get_or_0_nonneg get_or_0_nonneg')
  show ?thesis
  proof (cases "\<not> number_gt (get_or_0 (values' t) k) (get_or_0 (values' o') k)
      \<and> number_gt (get_or_0 (values' o') k) (get_or_0 (values' t) k)")
    case False
    then show ?thesis
      using assms by (auto simp: merge_key_def Let_def split: if_splits)
  next
    case True
    then have gt: "number_lt (get_or_0 (values' t) k) (get_or_0 (values' o') k)"
      by (simp add: number_gt_def)
    have ngte: "\<not> number_gte (get_or_0 (version t) k) (get_or_0 (version o') k)"
      and t': "t' = t\<lparr>values' := map_set (values' t) k (get_or_0 (values' o') k),
                     version := map_set (version t) k (get_or_0 (version o') k)\<rparr>"
      using assms(2) True by (auto simp: merge_key_def Let_def split: if_splits)
    have "number_lt (get_or_0 (version t) k) (get_or_0 (version o') k)"
      using ngte by (intro number_gt_of_not_gte) simp_all
    with w have "number_lt (number_of_int 0) (get_or_0 (version o') k)"
      by (rule number_above) simp
    moreover have "\<not> number_lt (get_or_0 (values' o') k) (number_of_int 0)"
      using v gt by (rule number_not_below)
    ultimately show ?thesis
      unfolding t' by (intro count_inv_set assms(1))
  qed
qed

lemma merge_keys_count_inv:
  "count_inv t \<Longrightarrow> count_inv (fst (merge_keys t o' ks tc oc))"
proof (induction ks arbitrary: t tc oc)
  case Nil
  then show ?case by simp
next
  case (Cons k ks)
  show ?case
  proof (cases "merge_key t o' k")
    case (Inl e)
    then show ?thesis using Cons.prems by simp
  next
    case (Inr r)
    obtain t' a b where r: "r = (t', a, b)" by (cases r) auto
    have "count_inv t'" using Cons.prems Inr r by (auto intro: merge_key_count_inv)
    then have "count_inv (fst (merge_keys t' o' ks (tc @ a) (oc @ b)))" by (rule Cons.IH)
    then show ?thesis using Inr r by simp
  qed
qed

lemma fst_merge:
  "fst (merge h this other) = fst (merge_other_keys h this other 0 [] [])"
  by (simp add: merge_def split: prod.splits sum.splits)

lemma merge_count_inv:
  assumes "\<forall>x. count_inv (h x)"
  shows "count_inv (fst (merge h this other) x)"
proof (cases "other = this")
  case True
  then show ?thesis using assms by (simp add: fst_merge merge_other_keys_alias)
next
  case False
  show ?thesis
    unfolding fst_merge merge_other_keys_pure [OF False]
    using assms by (simp add: merge_keys_count_inv)
qed

lemma reachable_count_inv: "reachable h \<Longrightarrow> count_inv (h x)"
proof (induction arbitrary: x rule: reachable.induct)
  case init
  show ?case by (rule count_inv_new_model)
next
  case (apply_op h operation this)
  then show ?case by (simp add: applyOperation_at_def count_inv_applyOperation)
next
  case (merged h this other)
  then show ?case by (simp add: merge_count_inv)
qed

lemma merge_key_Inl: "merge_key t o' k = Inl e \<Longrightarrow> e = DivergentVersions"
  by (auto simp: merge_key_def Let_def split: if_splits)

lemma merge_key_other_key:
  assumes "merge_key t o' k = Inr (t', a, b)" and "k \<noteq> k'"
  shows "get_or_0 (values' t') k' = get_or_0 (values' t) k'"
    and "get_or_0 (version t') k' = get_or_0 (version t) k'"
  using assms by (auto simp: merge_key_def Let_def get_or_0_map_set_other split: if_splits)

lemma number_gte_of_not_gt:
  "a \<noteq> NotANumber \<Longrightarrow> b \<noteq> NotANumber \<Longrightarrow> \<not> number_gt a b \<Longrightarrow> number_gte b a"
  using number_total [of a b] by (auto simp: number_gte_def number_gt_def number_eq_def)

lemma merge_key_divergent:
  assumes "divergent_at t o' k \<or> divergent_at o' t k"
  shows "merge_key t o' k = Inl DivergentVersions"
  using assms
proof
  assume "divergent_at t o' k"
  then show ?thesis
    by (simp add: merge_key_def divergent_at_def Let_def number_gte_of_not_gt)
next
  assume d: "divergent_at o' t k"
  then have "\<not> number_gt (get_or_0 (values' t) k) (get_or_0 (values' o') k)"
    by (auto simp: divergent_at_def number_gt_def dest: number_lt_asym)
  then show ?thesis
    using d by (simp add: merge_key_def divergent_at_def Let_def number_gte_of_not_gt)
qed

lemma merge_keys_divergent:
  assumes "k \<in> set ks" and "divergent_at t o' k \<or> divergent_at o' t k"
  shows "snd (merge_keys t o' ks tc oc) = Inl DivergentVersions"
  using assms
proof (induction ks arbitrary: t tc oc)
  case Nil
  then show ?case by simp
next
  case (Cons k' ks)
  show ?case
  proof (cases "merge_key t o' k'")
    case (Inl e)
    then show ?thesis by (simp add: merge_key_Inl)
  next
    case (Inr r)
    obtain t' a b where r: "r = (t', a, b)" by (cases r) auto
    have neq: "k' \<noteq> k"
      using Inr Cons.prems(2) merge_key_divergent [of t o' k'] by auto
    then have "k \<in> set ks" using Cons.prems(1) by simp
    moreover have "divergent_at t' o' k \<or> divergent_at o' t' k"
      using Cons.prems(2) merge_key_other_key [OF Inr [unfolded r] neq]
      by (simp add: divergent_at_def)
    ultimately have "snd (merge_keys t' o' ks (tc @ a) (oc @ b)) = Inl DivergentVersions"
      by (rule Cons.IH)
    then show ?thesis using Inr r by simp
  qed
qed

lemma divergent_distinct:
  "divergent_at (h x) (h y) a \<or> divergent_at (h y) (h x) a \<Longrightarrow> y \<noteq> x"
  by (auto simp: divergent_at_def number_gt_def)

lemma merge_divergent_present:
  assumes "map_has (values' (h y)) a"
    and "divergent_at (h x) (h y) a \<or> divergent_at (h y) (h x) a"
  shows "snd (merge h x y) = Inl DivergentVersions"
proof -
  have neq: "y \<noteq> x" using assms(2) by (rule divergent_distinct)
  have "a \<in> set (map_keys (values' (h y)))"
    using assms(1) by (simp add: map_has_keys)
  then have "snd (merge_keys (h x) (h y) (map_keys (values' (h y))) [] []) = Inl DivergentVersions"
    using assms(2) by (rule merge_keys_divergent)
  then show ?thesis
    by (simp add: merge_def merge_other_keys_pure [OF neq])
qed

lemma divergent_key_present:
  assumes "count_inv x" "count_inv y" "divergent_at x y a \<or> divergent_at y x a"
  shows "map_has (values' y) a"
proof (rule ccontr)
  assume "\<not> map_has (values' y) a"
  then have absent: "a \<notin> set (map_keys (values' y))" by (simp add: map_has_keys)
  then have y0: "get_or_0 (values' y) a = number_of_int 0" "get_or_0 (version y) a = number_of_int 0"
    using assms(2) by (auto simp: count_inv_def get_or_0_absent)
  have "\<not> number_lt (get_or_0 (values' x) a) (number_of_int 0)"
    using assms(1) by (simp add: count_inv_def get_or_0_nonneg)
  with assms(3) y0 have pos: "number_lt (number_of_int 0) (get_or_0 (values' x) a)"
    and ver: "\<not> number_lt (number_of_int 0) (get_or_0 (version x) a)"
    by (auto simp: divergent_at_def number_gt_def)
  have "a \<in> set (map_keys (values' x))"
  proof (rule ccontr)
    assume "a \<notin> set (map_keys (values' x))"
    then have "get_or_0 (values' x) a = number_of_int 0" by (rule get_or_0_absent)
    with pos show False by simp
  qed
  then have "number_lt (number_of_int 0) (get_or_0 (version x) a)"
    using assms(1) by (auto simp: count_inv_def get_or_0_pos)
  with ver show False by simp
qed

lemma reachable_applyOperations_at:
  "reachable h \<Longrightarrow> \<forall>operation \<in> set ops. vto (op_version operation) \<noteq> NotANumber \<Longrightarrow>
     reachable (applyOperations_at h this ops)"
  by (induction ops arbitrary: h) (auto intro: reachable.apply_op)

lemma reachable_two_replicas:
  "\<forall>operation \<in> set xs \<union> set ys. vto (op_version operation) \<noteq> NotANumber \<Longrightarrow>
     reachable (two_replicas xs ys)"
  unfolding two_replicas_def
  by (intro reachable_applyOperations_at reachable.init) auto

text \<open>What evaluates the replicas of the scenarios below.\<close>

lemmas replica_simps =
  two_replicas_def applyOperation_at_def applyOperation_def newMultiIncrement_def newIncrement_def
  new_model_def get_or_0_def get_or_undefined_def map_get_def map_has_def map_keys_def or_0_def
  number_eq_def number_lte_def number_gt_def number_gte_def number_int_simps

text \<open>
  C4, as stated, fails. Replica X, fresh, applies \<open>MultiIncrement(1, 'me', 0, NaN)\<close>,
  which \<open>applyOperation\<close> accepts (\<open>NaN <= 0\<close> is false); it then holds the value 1
  for \<open>'me'\<close> at version NaN, which reads as 0. Replica Y is fresh. X has the strictly
  greater value for \<open>'me'\<close> and not the strictly greater version, yet \<open>X.merge(Y)\<close>
  does not throw: the first loop runs over the keys of Y, of which there are none, and
  the second loop pushes an operation for \<open>'me'\<close> onto \<open>otherChange\<close>.
\<close>

theorem C4_merge_throws_on_divergence_counterexample:
  "fst (applyOperation new_model (newMultiIncrement (number_of_int 1) ''me'' (number_of_int 0) NotANumber))
   \<and> divergent_at
        (two_replicas [newMultiIncrement (number_of_int 1) ''me'' (number_of_int 0) NotANumber] [] 0)
        (two_replicas [newMultiIncrement (number_of_int 1) ''me'' (number_of_int 0) NotANumber] [] 1)
        ''me''
   \<and> snd (merge (two_replicas [newMultiIncrement (number_of_int 1) ''me'' (number_of_int 0) NotANumber] []) 0 1)
       = Inr \<lparr>modelChange = [],
              otherChange = [MultiIncrement (number_of_int 1) ''me'' (VersionInfo (number_of_int 0) NotANumber)]\<rparr>"
  by (simp add: replica_simps divergent_at_def merge_def merge_other_keys.simps)

text \<open>
  C4, amended: for every pair of replicas, if for some actor one of the two has a
  strictly greater value than the other while its version for that actor is not
  strictly greater (absent and NaN entries reading as 0), then \<open>merge\<close> throws the
  \<open>CRDTError\<close> for divergent versions, whichever of the two is the receiver, provided
  that the actor has an entry in the values of the replica passed to \<open>merge\<close>, or that
  the replicas were built from fresh ones by \<open>merge\<close> and by \<open>applyOperation\<close> with
  operations whose \<open>to\<close> is not NaN. In particular, starting from two empty replicas,
  after one applies \<open>MultiIncrement(7,'me',0,1)\<close> and the other
  \<open>MultiIncrement(4,'me',0,1)\<close>, \<open>merge\<close> throws.
\<close>

theorem C4_merge_throws_on_divergence:
  "(map_has (values' (h y)) a \<longrightarrow>
      divergent_at (h x) (h y) a \<or> divergent_at (h y) (h x) a \<longrightarrow>
      snd (merge h x y) = Inl DivergentVersions)
   \<and> (reachable h \<longrightarrow>
      divergent_at (h x) (h y) a \<or> divergent_at (h y) (h x) a \<longrightarrow>
      snd (merge h x y) = Inl DivergentVersions)
   \<and> snd (merge (two_replicas
                   [newMultiIncrement (number_of_int 7) ''me'' (number_of_int 0) (number_of_int 1)]
                   [newMultiIncrement (number_of_int 4) ''me'' (number_of_int 0) (number_of_int 1)]) 0 1)
       = Inl DivergentVersions"
proof (intro conjI impI)
  assume "map_has (values' (h y)) a"
    and "divergent_at (h x) (h y) a \<or> divergent_at (h y) (h x) a"
  then show "snd (merge h x y) = Inl DivergentVersions"
    by (rule merge_divergent_present)
next
  assume r: "reachable h"
    and d: "divergent_at (h x) (h y) a \<or> divergent_at (h y) (h x) a"
  have "map_has (values' (h y)) a"
    using d by (intro divergent_key_present [of "h x"] reachable_count_inv r)
  then show "snd (merge h x y) = Inl DivergentVersions"
    using d by (rule merge_divergent_present)
next
  let ?h = "two_replicas
              [newMultiIncrement (number_of_int 7) ''me'' (number_of_int 0) (number_of_int 1)]
              [newMultiIncrement (number_of_int 4) ''me'' (number_of_int 0) (number_of_int 1)]"
  have "map_has (values' (?h 1)) ''me''" and "divergent_at (?h 0) (?h 1) ''me''"
    by (simp_all add: replica_simps divergent_at_def)
  then show "snd (merge ?h 0 1) = Inl DivergentVersions"
    by (intro merge_divergent_present [where a = "''me''"]) simp_all
qed

theorem C4_merge_throws_on_divergence_witness:
  "map_has (values' (two_replicas
        [newMultiIncrement (number_of_int 7) ''me'' (number_of_int 0) (number_of_int 2)]
        [newMultiIncrement (number_of_int 9) ''me'' (number_of_int 0) (number_of_int 1)] 1)) ''me''
   \<and> reachable (two_replicas
        [newMultiIncrement (number_of_int 7) ''me'' (number_of_int 0) (number_of_int 2)]
        [newMultiIncrement (number_of_int 9) ''me'' (number_of_int 0) (number_of_int 1)])
   \<and> divergent_at
        (two_replicas
           [newMultiIncrement (number_of_int 7) ''me'' (number_of_int 0) (number_of_int 2)]
           [newMultiIncrement (number_of_int 9) ''me'' (number_of_int 0) (number_of_int 1)] 1)
        (two_replicas
           [newMultiIncrement (number_of_int 7) ''me'' (number_of_int 0) (number_of_int 2)]
           [newMultiIncrement (number_of_int 9) ''me'' (number_of_int 0) (number_of_int 1)] 0) ''me''
   \<and> snd (merge (two_replicas
        [newMultiIncrement (number_of_int 7) ''me'' (number_of_int 0) (number_of_int 2)]
        [newMultiIncrement (number_of_int 9) ''me'' (number_of_int 0) (number_of_int 1)]) 0 1)
       = Inl DivergentVersions"
proof -
  let ?h = "two_replicas
        [newMultiIncrement (number_of_int 7) ''me'' (number_of_int 0) (number_of_int 2)]
        [newMultiIncrement (number_of_int 9) ''me'' (number_of_int 0) (number_of_int 1)]"
  have r: "reachable ?h"
    by (rule reachable_two_replicas) (simp add: newMultiIncrement_def)
  have p: "map_has (values' (?h 1)) ''me''" and d: "divergent_at (?h 1) (?h 0) ''me''"
    by (simp_all add: replica_simps divergent_at_def)
  from C4_merge_throws_on_divergence [of ?h 1 "''me''" 0] r p d show ?thesis by simp
qed

text \<open>
  C1 on the code: replica X applies \<open>Increment('me',0)\<close>; replica Y applies the same
  operation and then \<open>MultiIncrement(0,'me',1,2)\<close>, which \<open>applyOperation\<close> accepts.
  Both hold the value 1 for \<open>'me'\<close>, at versions 1 and 2. \<open>X.merge(Y)\<close> compares
  the values only, finds them equal, returns without throwing and with an empty
  \<open>otherChange\<close>; after applying it to Y the two models still differ in their version
  maps.
\<close>

theorem C1_merge_leaves_versions_apart:
  "(case merge (two_replicas
                  [newIncrement ''me'' (number_of_int 0)]
                  [newIncrement ''me'' (number_of_int 0),
                   newMultiIncrement (number_of_int 0) ''me'' (number_of_int 1) (number_of_int 2)]) 0 1 of
      (h', Inl e) \<Rightarrow> False
    | (h', Inr changes) \<Rightarrow>
        otherChange changes = []
        \<and> applyOperations_at h' 1 (otherChange changes) 0
            = \<lparr>values' = [(''me'', number_of_int 1)], version = [(''me'', number_of_int 1)]\<rparr>
        \<and> applyOperations_at h' 1 (otherChange changes) 1
            = \<lparr>values' = [(''me'', number_of_int 1)], version = [(''me'', number_of_int 2)]\<rparr>)"
  by (simp add: replica_simps merge_def merge_other_keys.simps merge_key_def Let_def)

section \<open>Refinement expressions and ranges\<close>

subsection \<open>JavaScript numbers\<close>

text \<open>
  A JavaScript number is a real number, one of the two infinities, or NaN. Rounding to
  double precision and the sign of zero are not modelled.
\<close>

datatype js_number = NaN | NegInf | Fin real | PosInf

fun js_neg :: "js_number \<Rightarrow> js_number" where
  "js_neg NaN = NaN"
| "js_neg NegInf = PosInf"
| "js_neg PosInf = NegInf"
| "js_neg (Fin a) = Fin (- a)"

fun js_add :: "js_number \<Rightarrow> js_number \<Rightarrow> js_number" where
  "js_add NaN b = NaN"
| "js_add a NaN = NaN"
| "js_add (Fin a) (Fin b) = Fin (a + b)"
| "js_add PosInf NegInf = NaN"
| "js_add NegInf PosInf = NaN"
| "js_add PosInf b = PosInf"
| "js_add a PosInf = PosInf"
| "js_add NegInf b = NegInf"
| "js_add a NegInf = NegInf"

definition js_sub :: "js_number \<Rightarrow> js_number \<Rightarrow> js_number" where
  "js_sub a b = js_add a (js_neg b)"

text \<open>The sign of a number that is not NaN: \<open>-1\<close>, \<open>0\<close> or \<open>1\<close>.\<close>

fun js_sign :: "js_number \<Rightarrow> int" where
  "js_sign NaN = 0"
| "js_sign NegInf = - 1"
| "js_sign PosInf = 1"
| "js_sign (Fin a) = (if a < 0 then - 1 else if a = 0 then 0 else 1)"

definition js_inf_of_sign :: "int \<Rightarrow> js_number" where
  "js_inf_of_sign s = (if s < 0 then NegInf else if s = 0 then NaN else PosInf)"

fun js_mul :: "js_number \<Rightarrow> js_number \<Rightarrow> js_number" where
  "js_mul NaN b = NaN"
| "js_mul a NaN = NaN"
| "js_mul (Fin a) (Fin b) = Fin (a * b)"
| "js_mul a b = js_inf_of_sign (js_sign a * js_sign b)"

fun js_div :: "js_number \<Rightarrow> js_number \<Rightarrow> js_number" where
  "js_div NaN b = NaN"
| "js_div a NaN = NaN"
| "js_div (Fin a) (Fin b) = (if b = 0 then js_inf_of_sign (js_sign (Fin a)) else Fin (a / b))"
| "js_div (Fin a) b = Fin 0"
| "js_div a (Fin b) = js_inf_of_sign (js_sign a * (if b < 0 then - 1 else 1))"
| "js_div a b = NaN"

fun js_lt :: "js_number \<Rightarrow> js_number \<Rightarrow> bool" where
  "js_lt NaN b = False"
| "js_lt a NaN = False"
| "js_lt (Fin a) (Fin b) = (a < b)"
| "js_lt a NegInf = False"
| "js_lt PosInf b = False"
| "js_lt NegInf b = True"
| "js_lt a PosInf = True"

definition js_gt :: "js_number \<Rightarrow> js_number \<Rightarrow> bool" where
  "js_gt a b = js_lt b a"

text \<open>Strict equality \<open>===\<close> on numbers: NaN equals nothing.\<close>

definition js_eq :: "js_number \<Rightarrow> js_number \<Rightarrow> bool" where
  "js_eq a b = (a \<noteq> NaN \<and> a = b)"

definition js_lte :: "js_number \<Rightarrow> js_number \<Rightarrow> bool" where
  "js_lte a b = (js_lt a b \<or> js_eq a b)"

definition js_gte :: "js_number \<Rightarrow> js_number \<Rightarrow> bool" where
  "js_gte a b = (js_gt a b \<or> js_eq a b)"

subsection \<open>Operators\<close>

datatype Op = AND | OR | LT | GT | LTE | GTE | ADD | SUB | MUL | DIV | NOT | NEG | EQ | NEQ

text \<open>The string of each operator (the values of the enum \<open>Op\<close>).\<close>

definition op_table :: "(string \<times> Op) list" where
  "op_table =
     [(''and'', AND), (''or'', OR), (''<'', LT), (''>'', GT), (''<='', LTE), (''>='', GTE),
      (''+'', ADD), (''-'', SUB), (''*'', MUL), (''/'', DIV), (''not'', NOT), (''neg'', NEG),
      (''=='', EQ), (''!='', NEQ)]"

datatype EvalType = Boolean | Number | Text

text \<open>\<open>argType\<close> of an operator: a type, or \<open>'same'\<close>.\<close>

datatype ArgType = ArgOf EvalType | Same

text \<open>Values of the primitives that constant folding computes with.\<close>

datatype js_value = VNumber js_number | VBoolean bool

text \<open>
  The \<open>operatorTable\<close>: \<open>nArgs\<close>, \<open>argType\<close>, \<open>evalType\<close> and \<open>evalFn\<close> of each operator.
  \<open>evalFn\<close> is modelled on operands of the operator's argument type, the only ones the
  constructors admit (for \<open>==\<close> and \<open>!=\<close>: on any two operands, strict equality does not
  coerce). On other operands JavaScript would coerce; there the model gives \<open>None\<close>.
\<close>

fun nArgs :: "Op \<Rightarrow> nat" where
  "nArgs NOT = 1"
| "nArgs NEG = 1"
| "nArgs operator = 2"

fun argType :: "Op \<Rightarrow> ArgType" where
  "argType AND = ArgOf Boolean"
| "argType OR = ArgOf Boolean"
| "argType NOT = ArgOf Boolean"
| "argType EQ = Same"
| "argType NEQ = Same"
| "argType operator = ArgOf Number"

fun op_evalType :: "Op \<Rightarrow> EvalType" where
  "op_evalType ADD = Number"
| "op_evalType SUB = Number"
| "op_evalType MUL = Number"
| "op_evalType DIV = Number"
| "op_evalType NEG = Number"
| "op_evalType operator = Boolean"

fun strict_equal :: "js_value \<Rightarrow> js_value \<Rightarrow> bool" where
  "strict_equal (VNumber a) (VNumber b) = js_eq a b"
| "strict_equal (VBoolean a) (VBoolean b) = (a = b)"
| "strict_equal a b = False"

fun boolean_operands :: "js_value list \<Rightarrow> bool list option" where
  "boolean_operands [] = Some []"
| "boolean_operands (VBoolean b # vs) = map_option (Cons b) (boolean_operands vs)"
| "boolean_operands (VNumber n # vs) = None"

fun number_operands :: "js_value list \<Rightarrow> js_number list option" where
  "number_operands [] = Some []"
| "number_operands (VNumber n # vs) = map_option (Cons n) (number_operands vs)"
| "number_operands (VBoolean b # vs) = None"

definition evalFn :: "Op \<Rightarrow> js_value list \<Rightarrow> js_value option" where
  "evalFn operator e =
     (case operator of
        AND \<Rightarrow> (case boolean_operands e of Some [a, b] \<Rightarrow> Some (VBoolean (a \<and> b)) | _ \<Rightarrow> None)
      | OR \<Rightarrow> (case boolean_operands e of Some [a, b] \<Rightarrow> Some (VBoolean (a \<or> b)) | _ \<Rightarrow> None)
      | LT \<Rightarrow> (case number_operands e of Some [a, b] \<Rightarrow> Some (VBoolean (js_lt a b)) | _ \<Rightarrow> None)
      | GT \<Rightarrow> (case number_operands e of Some [a, b] \<Rightarrow> Some (VBoolean (js_gt a b)) | _ \<Rightarrow> None)
      | LTE \<Rightarrow> (case number_operands e of Some [a, b] \<Rightarrow> Some (VBoolean (js_lte a b)) | _ \<Rightarrow> None)
      | GTE \<Rightarrow> (case number_operands e of Some [a, b] \<Rightarrow> Some (VBoolean (js_gte a b)) | _ \<Rightarrow> None)
      | ADD \<Rightarrow> (case number_operands e of Some [a, b] \<Rightarrow> Some (VNumber (js_add a b)) | _ \<Rightarrow> None)
      | SUB \<Rightarrow> (case number_operands e of Some [a, b] \<Rightarrow> Some (VNumber (js_sub a b)) | _ \<Rightarrow> None)
      | MUL \<Rightarrow> (case number_operands e of Some [a, b] \<Rightarrow> Some (VNumber (js_mul a b)) | _ \<Rightarrow> None)
      | DIV \<Rightarrow> (case number_operands e of Some [a, b] \<Rightarrow> Some (VNumber (js_div a b)) | _ \<Rightarrow> None)
      | NOT \<Rightarrow> (case boolean_operands e of Some [a] \<Rightarrow> Some (VBoolean (\<not> a)) | _ \<Rightarrow> None)
      | NEG \<Rightarrow> (case number_operands e of Some [a] \<Rightarrow> Some (VNumber (js_neg a)) | _ \<Rightarrow> None)
      | EQ \<Rightarrow> (case e of [a, b] \<Rightarrow> Some (VBoolean (strict_equal a b)) | _ \<Rightarrow> None)
      | NEQ \<Rightarrow> (case e of [a, b] \<Rightarrow> Some (VBoolean (\<not> strict_equal a b)) | _ \<Rightarrow> None))"

subsection \<open>Expressions\<close>

text \<open>
  The classes \<open>BinaryExpression\<close>, \<open>UnaryExpression\<close>, \<open>FieldNamePrimitive\<close>,
  \<open>NumberPrimitive\<close> and \<open>BooleanPrimitive\<close>. The field \<open>evalType\<close> of a binary or unary
  expression is always the \<open>evalType\<close> of its operator in the table, so it is computed
  rather than stored; a field name stores the type found in the type dictionary.
\<close>

datatype RefinementExpression =
    BinaryExpression RefinementExpression Op RefinementExpression
  | UnaryExpression Op RefinementExpression
  | FieldNamePrimitive string EvalType
  | NumberPrimitive js_number
  | BooleanPrimitive bool

fun evalType :: "RefinementExpression \<Rightarrow> EvalType" where
  "evalType (BinaryExpression l operator r) = op_evalType operator"
| "evalType (UnaryExpression operator e) = op_evalType operator"
| "evalType (FieldNamePrimitive name t) = t"
| "evalType (NumberPrimitive v) = Number"
| "evalType (BooleanPrimitive v) = Boolean"

subsection \<open>Construction from the syntax tree\<close>

datatype RefinementExpressionNode =
    BinaryExpressionNode RefinementExpressionNode string RefinementExpressionNode
  | UnaryExpressionNode string RefinementExpressionNode
  | FieldNode string
  | NumberNode js_number
  | BooleanNode bool

datatype RefinementError =
    UnresolvedFieldName string
  | InvalidRefinementOperator string
  | WrongOperandCount nat nat
  | OperandsNotSame EvalType EvalType
  | WrongOperandType EvalType EvalType
  | InvalidRange
  | CannotMerge
  | CannotOverlap
  | CannotResolvePrimitive
  | UndefinedRange
  | UnsupportedOperator Op

text \<open>
  A throw is the result \<open>Inl\<close> of the error; \<open>bind_sum m f\<close> continues with \<open>f\<close> on the
  value of \<open>m\<close> unless \<open>m\<close> threw.
\<close>

definition bind_sum :: "'e + 'a \<Rightarrow> ('a \<Rightarrow> 'e + 'b) \<Rightarrow> 'e + 'b" where
  "bind_sum m f = case_sum Inl f m"

lemma bind_sum_simps [simp]:
  "bind_sum (Inl e) f = Inl e"
  "bind_sum (Inr x) f = f x"
  by (simp_all add: bind_sum_def)

text \<open>\<open>new RefinementOperator(operator)\<close>: the lookup in the table, or the throw.\<close>

definition newRefinementOperator :: "string \<Rightarrow> RefinementError + Op" where
  "newRefinementOperator operator =
     (case map_of op_table operator of
        None \<Rightarrow> Inl (InvalidRefinementOperator operator)
      | Some operator' \<Rightarrow> Inr operator')"

definition validateOperandCompatibility :: "Op \<Rightarrow> EvalType list \<Rightarrow> RefinementError + unit" where
  "validateOperandCompatibility operator operandTypes =
     (if length operandTypes \<noteq> nArgs operator
      then Inl (WrongOperandCount (nArgs operator) (length operandTypes))
      else (case argType operator of
          Same \<Rightarrow>
            if operandTypes ! 0 \<noteq> operandTypes ! 1
            then Inl (OperandsNotSame (operandTypes ! 0) (operandTypes ! 1))
            else Inr ()
        | ArgOf t \<Rightarrow>
            (case filter (\<lambda>type. type \<noteq> t) operandTypes of
               [] \<Rightarrow> Inr ()
             | type # rest \<Rightarrow> Inl (WrongOperandType type t))))"

fun fromAst ::
  "RefinementExpressionNode \<Rightarrow> (string \<rightharpoonup> EvalType) \<Rightarrow> RefinementError + RefinementExpression" where
  "fromAst (BinaryExpressionNode l operator r) typeData =
     bind_sum (fromAst l typeData) (\<lambda>leftExpr.
     bind_sum (fromAst r typeData) (\<lambda>rightExpr.
     bind_sum (newRefinementOperator operator) (\<lambda>operator'.
     bind_sum (validateOperandCompatibility operator' [evalType leftExpr, evalType rightExpr]) (\<lambda>u.
       Inr (BinaryExpression leftExpr operator' rightExpr)))))"
| "fromAst (UnaryExpressionNode operator e) typeData =
     bind_sum (fromAst e typeData) (\<lambda>expr.
     bind_sum (newRefinementOperator (if operator = ''-'' then ''neg'' else operator)) (\<lambda>operator'.
     bind_sum (validateOperandCompatibility operator' [evalType expr]) (\<lambda>u.
       Inr (UnaryExpression operator' expr))))"
| "fromAst (FieldNode name) typeData =
     (case typeData name of
        None \<Rightarrow> Inl (UnresolvedFieldName name)
      | Some t \<Rightarrow> Inr (FieldNamePrimitive name t))"
| "fromAst (NumberNode v) typeData = Inr (NumberPrimitive v)"
| "fromAst (BooleanNode v) typeData = Inr (BooleanPrimitive v)"

subsection \<open>Normalisation\<close>

text \<open>
  \<open>simplifyPrimitive\<close> returns \<open>null\<close> (\<open>NotSimplified\<close>) or a primitive holding the
  value of \<open>this.applyOperator({})\<close>, which for two primitive operands is the operator's
  \<open>evalFn\<close> on their values. \<open>Uncovered\<close> is the case where \<open>evalFn\<close> is applied outside
  its argument types, or its result is put into the primitive of the other type.
\<close>

datatype Simplified = NotSimplified | Simplified RefinementExpression | Uncovered

definition BooleanPrimitive_fromValue :: "js_value option \<Rightarrow> Simplified" where
  "BooleanPrimitive_fromValue v =
     (case v of Some (VBoolean b) \<Rightarrow> Simplified (BooleanPrimitive b) | _ \<Rightarrow> Uncovered)"

definition NumberPrimitive_fromValue :: "js_value option \<Rightarrow> Simplified" where
  "NumberPrimitive_fromValue v =
     (case v of Some (VNumber n) \<Rightarrow> Simplified (NumberPrimitive n) | _ \<Rightarrow> Uncovered)"

fun simplifyPrimitive_binary ::
  "RefinementExpression \<Rightarrow> Op \<Rightarrow> RefinementExpression \<Rightarrow> Simplified" where
  "simplifyPrimitive_binary (BooleanPrimitive a) operator (BooleanPrimitive b) =
     BooleanPrimitive_fromValue (evalFn operator [VBoolean a, VBoolean b])"
| "simplifyPrimitive_binary (NumberPrimitive a) operator (NumberPrimitive b) =
     (if op_evalType operator = Boolean
      then BooleanPrimitive_fromValue (evalFn operator [VNumber a, VNumber b])
      else NumberPrimitive_fromValue (evalFn operator [VNumber a, VNumber b]))"
| "simplifyPrimitive_binary l operator r = NotSimplified"

fun simplifyPrimitive_unary :: "Op \<Rightarrow> RefinementExpression \<Rightarrow> Simplified" where
  "simplifyPrimitive_unary operator (BooleanPrimitive a) =
     (if operator = NOT then BooleanPrimitive_fromValue (evalFn operator [VBoolean a])
      else NotSimplified)"
| "simplifyPrimitive_unary operator (NumberPrimitive a) =
     (if operator = NEG then NumberPrimitive_fromValue (evalFn operator [VNumber a])
      else NotSimplified)"
| "simplifyPrimitive_unary operator e = NotSimplified"

text \<open>\<open>swapChildren\<close>: the operands change places and an order comparison is mirrored.\<close>

fun swapped_op :: "Op \<Rightarrow> Op" where
  "swapped_op LT = GT"
| "swapped_op GT = LT"
| "swapped_op LTE = GTE"
| "swapped_op GTE = LTE"
| "swapped_op operator = operator"

definition swapChildren ::
  "RefinementExpression \<times> Op \<times> RefinementExpression \<Rightarrow> RefinementExpression \<times> Op \<times> RefinementExpression" where
  "swapChildren this = (case this of (l, operator, r) \<Rightarrow> (r, swapped_op operator, l))"

fun is_FieldNamePrimitive :: "RefinementExpression \<Rightarrow> bool" where
  "is_FieldNamePrimitive (FieldNamePrimitive name t) = True"
| "is_FieldNamePrimitive e = False"

text \<open>
  The end of \<open>BinaryExpression.normalise\<close>, after folding and swapping: the \<open>switch\<close> on
  the operator.
\<close>

definition normalise_switch :: "RefinementExpression \<Rightarrow> Op \<Rightarrow> RefinementExpression \<Rightarrow> RefinementExpression" where
  "normalise_switch leftExpr operator rightExpr =
     (case operator of
        AND \<Rightarrow>
          (case leftExpr of
             BooleanPrimitive a \<Rightarrow> if a then rightExpr else leftExpr
           | _ \<Rightarrow>
             (case rightExpr of
                BooleanPrimitive b \<Rightarrow> if b then leftExpr else rightExpr
              | _ \<Rightarrow> BinaryExpression leftExpr operator rightExpr))
      | OR \<Rightarrow>
          (case leftExpr of
             BooleanPrimitive a \<Rightarrow> if a then leftExpr else rightExpr
           | _ \<Rightarrow>
             (case rightExpr of
                BooleanPrimitive b \<Rightarrow> if b then rightExpr else leftExpr
              | _ \<Rightarrow> BinaryExpression leftExpr operator rightExpr))
      | _ \<Rightarrow> BinaryExpression leftExpr operator rightExpr)"

text \<open>The end of \<open>UnaryExpression.normalise\<close>: the \<open>switch\<close> on the operator.\<close>

fun is_NOT_expression :: "RefinementExpression \<Rightarrow> bool" where
  "is_NOT_expression (UnaryExpression operator e) = (operator = NOT)"
| "is_NOT_expression e = False"

fun unary_expr :: "RefinementExpression \<Rightarrow> RefinementExpression" where
  "unary_expr (UnaryExpression operator e) = e"
| "unary_expr e = e"

definition normalise_switch_unary :: "Op \<Rightarrow> RefinementExpression \<Rightarrow> RefinementExpression" where
  "normalise_switch_unary operator expr =
     (if operator = NOT
      then (if is_NOT_expression expr then unary_expr expr else UnaryExpression operator expr)
      else UnaryExpression operator expr)"

text \<open>
  \<open>normalise\<close>. The source overwrites the children of the node and returns the node or
  one of its parts; the model returns the resulting tree. \<open>None\<close> is the result when a
  fold was \<open>Uncovered\<close>. \<open>normalise_binary\<close> and \<open>normalise_unary\<close> are the parts of the
  two methods after the children have been normalised.
\<close>

definition normalise_binary ::
  "RefinementExpression \<Rightarrow> Op \<Rightarrow> RefinementExpression \<Rightarrow> RefinementExpression option" where
  "normalise_binary leftExpr operator rightExpr =
     (case simplifyPrimitive_binary leftExpr operator rightExpr of
        Uncovered \<Rightarrow> None
      | Simplified sp \<Rightarrow> Some sp
      | NotSimplified \<Rightarrow>
          (case (if is_FieldNamePrimitive rightExpr
                 then swapChildren (leftExpr, operator, rightExpr)
                 else (leftExpr, operator, rightExpr)) of
             (leftExpr', operator', rightExpr') \<Rightarrow>
               Some (normalise_switch leftExpr' operator' rightExpr')))"

definition normalise_unary :: "Op \<Rightarrow> RefinementExpression \<Rightarrow> RefinementExpression option" where
  "normalise_unary operator expr =
     (case simplifyPrimitive_unary operator expr of
        Uncovered \<Rightarrow> None
      | Simplified sp \<Rightarrow> Some sp
      | NotSimplified \<Rightarrow> Some (normalise_switch_unary operator expr))"

fun normalise :: "RefinementExpression \<Rightarrow> RefinementExpression option" where
  "normalise (BinaryExpression l operator r) =
     Option.bind (normalise l) (\<lambda>leftExpr.
     Option.bind (normalise r) (\<lambda>rightExpr.
       normalise_binary leftExpr operator rightExpr))"
| "normalise (UnaryExpression operator e) =
     Option.bind (normalise e) (\<lambda>expr. normalise_unary operator expr)"
| "normalise e = Some e"

subsection \<open>Segments\<close>

datatype BoundaryKind = Open | Closed

record Boundary =
  val :: js_number
  kind :: BoundaryKind

text \<open>
  A \<open>Segment\<close> has the fields \<open>from\<close> and \<open>to\<close>, written \<open>from'\<close> and \<open>to'\<close> here.
\<close>

record Segment =
  from' :: Boundary
  to' :: Boundary

definition isValid :: "Boundary \<Rightarrow> Boundary \<Rightarrow> bool" where
  "isValid from to =
     (if js_lt (val to) (val from) then False
      else if js_eq (val from) (val to) \<and> (kind from = Open \<or> kind to = Open) then False
      else True)"

text \<open>The constructor of \<open>Segment\<close>, which throws on an invalid pair of boundaries.\<close>

definition newSegment :: "Boundary \<Rightarrow> Boundary \<Rightarrow> RefinementError + Segment" where
  "newSegment from to =
     (if \<not> isValid from to then Inl InvalidRange else Inr \<lparr>from' = from, to' = to\<rparr>)"

definition closedClosed :: "js_number \<Rightarrow> js_number \<Rightarrow> RefinementError + Segment" where
  "closedClosed from to = newSegment \<lparr>val = from, kind = Closed\<rparr> \<lparr>val = to, kind = Closed\<rparr>"

definition openOpen :: "js_number \<Rightarrow> js_number \<Rightarrow> RefinementError + Segment" where
  "openOpen from to = newSegment \<lparr>val = from, kind = Open\<rparr> \<lparr>val = to, kind = Open\<rparr>"

definition closedOpen :: "js_number \<Rightarrow> js_number \<Rightarrow> RefinementError + Segment" where
  "closedOpen from to = newSegment \<lparr>val = from, kind = Closed\<rparr> \<lparr>val = to, kind = Open\<rparr>"

definition openClosed :: "js_number \<Rightarrow> js_number \<Rightarrow> RefinementError + Segment" where
  "openClosed from to = newSegment \<lparr>val = from, kind = Open\<rparr> \<lparr>val = to, kind = Closed\<rparr>"

definition isLessThan :: "Segment \<Rightarrow> Segment \<Rightarrow> bool \<Rightarrow> bool" where
  "isLessThan this seg strict =
     (if js_eq (val (to' this)) (val (from' seg)) then
        (if strict then kind (to' this) = Open \<or> kind (from' seg) = Open
         else kind (to' this) = Open \<and> kind (from' seg) = Open)
      else js_lt (val (to' this)) (val (from' seg)))"

definition isGreaterThan :: "Segment \<Rightarrow> Segment \<Rightarrow> bool \<Rightarrow> bool" where
  "isGreaterThan this seg strict =
     (if js_eq (val (from' this)) (val (to' seg)) then
        (if strict then kind (from' this) = Open \<or> kind (to' seg) = Open
         else kind (from' this) = Open \<and> kind (to' seg) = Open)
      else js_gt (val (from' this)) (val (to' seg)))"

definition mergeableWith :: "Segment \<Rightarrow> Segment \<Rightarrow> bool" where
  "mergeableWith this seg = (\<not> isLessThan this seg False \<and> \<not> isGreaterThan this seg False)"

definition overlapsWith :: "Segment \<Rightarrow> Segment \<Rightarrow> bool" where
  "overlapsWith this seg = (\<not> isLessThan this seg True \<and> \<not> isGreaterThan this seg True)"

definition merge_segments :: "Segment \<Rightarrow> Segment \<Rightarrow> RefinementError + Segment" where
  "merge_segments a b =
     (if \<not> mergeableWith a b then Inl CannotMerge
      else
        let left =
              (if js_eq (val (from' a)) (val (from' b))
               then (from' a)\<lparr>kind := (if kind (from' a) = kind (from' b) then kind (from' a) else Closed)\<rparr>
               else if js_lt (val (from' a)) (val (from' b)) then from' a else from' b);
            right =
              (if js_eq (val (to' a)) (val (to' b))
               then (to' a)\<lparr>kind := (if kind (to' a) = kind (to' b) then kind (to' a) else Closed)\<rparr>
               else if js_gt (val (to' a)) (val (to' b)) then to' a else to' b)
        in newSegment left right)"

definition overlap :: "Segment \<Rightarrow> Segment \<Rightarrow> RefinementError + Segment" where
  "overlap a b =
     (if \<not> overlapsWith a b then Inl CannotOverlap
      else
        let left =
              (if js_eq (val (from' a)) (val (from' b))
               then (from' a)\<lparr>kind := (if kind (from' a) = kind (from' b) then kind (from' a) else Open)\<rparr>
               else if js_gt (val (from' a)) (val (from' b)) then from' a else from' b);
            right =
              (if js_eq (val (to' a)) (val (to' b))
               then (to' a)\<lparr>kind := (if kind (to' a) = kind (to' b) then kind (to' a) else Open)\<rparr>
               else if js_lt (val (to' a)) (val (to' b)) then to' a else to' b)
        in newSegment left right)"

subsection \<open>Ranges\<close>

text \<open>A \<open>Range\<close> is its list of segments.\<close>

type_synonym Range = "Segment list"

text \<open>
  The first loop of \<open>unionWithSeg\<close>: it counts in \<open>i\<close> the segments that \<open>seg\<close> is greater
  than and stops at the first other one, where it fixes the lower boundary \<open>x\<close>.
\<close>

fun unionWithSeg_lower ::
  "Segment \<Rightarrow> Segment list \<Rightarrow> nat \<Rightarrow> Boundary \<Rightarrow> RefinementError + nat \<times> Boundary" where
  "unionWithSeg_lower seg [] i x = Inr (i, x)"
| "unionWithSeg_lower seg (subRange # rest) i x =
     (if isGreaterThan seg subRange False then unionWithSeg_lower seg rest (i + 1) x
      else if mergeableWith seg subRange then
        bind_sum (merge_segments seg subRange) (\<lambda>m. Inr (i, from' m))
      else Inr (i, if js_lt (val (from' subRange)) (val x) then from' subRange else x))"

text \<open>
  The second loop, over the reversed list: it lowers \<open>j\<close> past the segments that \<open>seg\<close> is
  less than and stops at the first other one, where it fixes the upper boundary \<open>y\<close>.
\<close>

fun unionWithSeg_upper ::
  "Segment \<Rightarrow> Segment list \<Rightarrow> nat \<Rightarrow> Boundary \<Rightarrow> RefinementError + nat \<times> Boundary" where
  "unionWithSeg_upper seg [] j y = Inr (j, y)"
| "unionWithSeg_upper seg (subRange # rest) j y =
     (if isLessThan seg subRange False then unionWithSeg_upper seg rest (j - 1) y
      else if mergeableWith seg subRange then
        bind_sum (merge_segments seg subRange) (\<lambda>m. Inr (j, to' m))
      else Inr (j, if js_gt (val (to' subRange)) (val y) then to' subRange else y))"

text \<open>
  \<open>Array.splice(start, deleteCount, item)\<close> for \<open>start\<close> within the array: a negative
  \<open>deleteCount\<close> counts as 0 and one beyond the end is cut to the end.
\<close>

definition array_splice :: "'a list \<Rightarrow> nat \<Rightarrow> int \<Rightarrow> 'a \<Rightarrow> 'a list" where
  "array_splice xs start deleteCount item = take start xs @ [item] @ drop (start + nat deleteCount) xs"

definition unionWithSeg :: "Range \<Rightarrow> Segment \<Rightarrow> RefinementError + Range" where
  "unionWithSeg this seg =
     bind_sum (unionWithSeg_lower seg this 0 (from' seg)) (\<lambda>(i, x).
     bind_sum (unionWithSeg_upper seg (rev this) (length this) (to' seg)) (\<lambda>(j, y).
     bind_sum (newSegment x y) (\<lambda>s.
       Inr (array_splice this i (int j - int i) s))))"

text \<open>\<open>union\<close>: \<open>unionWithSeg\<close> for each segment of the argument, in order.\<close>

fun Range_union :: "Range \<Rightarrow> Range \<Rightarrow> RefinementError + Range" where
  "Range_union this [] = Inr this"
| "Range_union this (seg # segs) =
     bind_sum (unionWithSeg this seg) (\<lambda>this'. Range_union this' segs)"

text \<open>The constructor \<open>new Range(segs)\<close> and \<open>copyOf\<close>.\<close>

definition newRange :: "Segment list \<Rightarrow> RefinementError + Range" where
  "newRange segs = Range_union [] segs"

definition copyOf :: "Range \<Rightarrow> RefinementError + Range" where
  "copyOf rng = newRange rng"

definition infiniteRange :: "RefinementError + Range" where
  "infiniteRange = bind_sum (openOpen NegInf PosInf) (\<lambda>seg. newRange [seg])"

fun intersectWithSeg :: "Range \<Rightarrow> Segment \<Rightarrow> RefinementError + Range" where
  "intersectWithSeg [] seg = Inr []"
| "intersectWithSeg (subRange # rest) seg =
     (if overlapsWith subRange seg then
        bind_sum (overlap seg subRange) (\<lambda>s.
        bind_sum (intersectWithSeg rest seg) (\<lambda>pushed. Inr (s # pushed)))
      else intersectWithSeg rest seg)"

text \<open>
  \<open>intersect\<close>: for each segment of the argument, a copy of the receiver is cut to that
  segment and united into a new range, which replaces the receiver's segments.
\<close>

fun intersect_loop :: "Range \<Rightarrow> Segment list \<Rightarrow> Range \<Rightarrow> RefinementError + Range" where
  "intersect_loop this [] result = Inr result"
| "intersect_loop this (seg # segs) result =
     bind_sum (copyOf this) (\<lambda>dup.
     bind_sum (intersectWithSeg dup seg) (\<lambda>dup'.
     bind_sum (Range_union result dup') (\<lambda>result'.
       intersect_loop this segs result')))"

definition Range_intersect :: "Range \<Rightarrow> Range \<Rightarrow> RefinementError + Range" where
  "Range_intersect this rng = intersect_loop this rng []"

definition unionOf :: "Range \<Rightarrow> Range \<Rightarrow> RefinementError + Range" where
  "unionOf range1 range2 = bind_sum (copyOf range1) (\<lambda>result. Range_union result range2)"

definition intersectionOf :: "Range \<Rightarrow> Range \<Rightarrow> RefinementError + Range" where
  "intersectionOf range1 range2 = bind_sum (copyOf range1) (\<lambda>result. Range_intersect result range2)"

definition flip_kind :: "Boundary \<Rightarrow> Boundary" where
  "flip_kind b = b\<lparr>kind := (if kind b = Open then Closed else Open)\<rparr>"

text \<open>
  The inner loop of \<open>difference\<close> over the segments of the intersection: the running
  lower boundary \<open>from\<close> and the segments pushed so far.
\<close>

fun difference_inner ::
  "Segment list \<Rightarrow> Boundary \<Rightarrow> Segment list \<Rightarrow> RefinementError + Boundary \<times> Segment list" where
  "difference_inner [] from result = Inr (from, result)"
| "difference_inner (iseg # isegs) from result =
     (if isValid from (flip_kind (from' iseg)) then
        bind_sum (newSegment from (flip_kind (from' iseg))) (\<lambda>s.
          difference_inner isegs (flip_kind (to' iseg)) (result @ [s]))
      else difference_inner isegs (flip_kind (to' iseg)) result)"

fun difference_loop :: "Segment list \<Rightarrow> Range \<Rightarrow> Segment list \<Rightarrow> RefinementError + Range" where
  "difference_loop [] range2 result = Inr result"
| "difference_loop (seg # segs) range2 result =
     bind_sum (copyOf range2) (\<lambda>ntrsct.
     bind_sum (intersectWithSeg ntrsct seg) (\<lambda>ntrsct'.
     bind_sum (difference_inner ntrsct' (from' seg) result) (\<lambda>(from, result').
       if isValid from (to' seg) then
         bind_sum (newSegment from (to' seg)) (\<lambda>s. difference_loop segs range2 (result' @ [s]))
       else difference_loop segs range2 result')))"

definition difference :: "Range \<Rightarrow> Range \<Rightarrow> RefinementError + Range" where
  "difference range1 range2 = difference_loop range1 range2 []"

text \<open>\<open>complementOf(range)\<close>, with the default second argument \<open>Range.infiniteRange()\<close>.\<close>

definition complementOf :: "Range \<Rightarrow> RefinementError + Range" where
  "complementOf rng = bind_sum infiniteRange (\<lambda>from. difference from rng)"

definition makeInitialGivenOp :: "Op \<Rightarrow> js_number \<Rightarrow> RefinementError + Range" where
  "makeInitialGivenOp operator v =
     (case operator of
        LT \<Rightarrow> bind_sum (openOpen NegInf v) (\<lambda>s. newRange [s])
      | LTE \<Rightarrow> bind_sum (openClosed NegInf v) (\<lambda>s. newRange [s])
      | GT \<Rightarrow> bind_sum (openOpen v PosInf) (\<lambda>s. newRange [s])
      | GTE \<Rightarrow> bind_sum (closedOpen v PosInf) (\<lambda>s. newRange [s])
      | EQ \<Rightarrow> bind_sum (closedClosed v v) (\<lambda>s. newRange [s])
      | NEQ \<Rightarrow> bind_sum (closedClosed v v) (\<lambda>s. bind_sum (newRange [s]) complementOf)
      | _ \<Rightarrow> Inl (UnsupportedOperator operator))"

fun is_NumberPrimitive :: "RefinementExpression \<Rightarrow> bool" where
  "is_NumberPrimitive (NumberPrimitive v) = True"
| "is_NumberPrimitive e = False"

text \<open>The field \<open>value\<close> of a \<open>NumberPrimitive\<close> (read only where the node is one).\<close>

fun NumberPrimitive_value :: "RefinementExpression \<Rightarrow> js_number" where
  "NumberPrimitive_value (NumberPrimitive v) = v"
| "NumberPrimitive_value e = NaN"

text \<open>
  \<open>updateGivenOp(op, ranges)\<close>. Reading \<open>ranges[i]\<close> beyond the end of the array gives
  \<open>undefined\<close>, and every use the function makes of such a range throws a \<open>TypeError\<close>.
\<close>

definition range_at :: "Range list \<Rightarrow> nat \<Rightarrow> RefinementError + Range" where
  "range_at ranges i = (if i < length ranges then Inr (ranges ! i) else Inl UndefinedRange)"

definition updateGivenOp :: "Op \<Rightarrow> Range list \<Rightarrow> RefinementError + Range" where
  "updateGivenOp operator ranges =
     (case operator of
        AND \<Rightarrow>
          bind_sum (range_at ranges 0) (\<lambda>r0.
          bind_sum (range_at ranges 1) (\<lambda>r1. intersectionOf r0 r1))
      | OR \<Rightarrow>
          bind_sum (range_at ranges 0) (\<lambda>r0.
          bind_sum (range_at ranges 1) (\<lambda>r1. unionOf r0 r1))
      | EQ \<Rightarrow>
          bind_sum (range_at ranges 0) (\<lambda>r0.
          bind_sum (complementOf r0) (\<lambda>lc.
          bind_sum (range_at ranges 1) (\<lambda>r1.
          bind_sum (complementOf r1) (\<lambda>rc.
          bind_sum (intersectionOf r0 r1) (\<lambda>lnr.
          bind_sum (intersectionOf lc rc) (\<lambda>lcnrc.
            unionOf lnr lcnrc))))))
      | NEQ \<Rightarrow>
          bind_sum (range_at ranges 0) (\<lambda>r0.
          bind_sum (complementOf r0) (\<lambda>lc.
          bind_sum (range_at ranges 1) (\<lambda>r1.
          bind_sum (complementOf r1) (\<lambda>rc.
          bind_sum (intersectionOf r0 rc) (\<lambda>lnrc.
          bind_sum (intersectionOf lc r1) (\<lambda>lcnr.
            unionOf lnrc lcnr))))))
      | NOT \<Rightarrow> bind_sum (range_at ranges 0) complementOf
      | _ \<Rightarrow> Inl (UnsupportedOperator operator))"

text \<open>
  \<open>fromExpression\<close>: a comparison of a field name with a number gives the initial range
  of the operator; any other binary or unary expression combines the ranges of its
  operands; a primitive by itself throws.
\<close>

fun fromExpression :: "RefinementExpression \<Rightarrow> RefinementError + Range" where
  "fromExpression (BinaryExpression leftExpr operator rightExpr) =
     (if is_FieldNamePrimitive leftExpr \<and> is_NumberPrimitive rightExpr
      then makeInitialGivenOp operator (NumberPrimitive_value rightExpr)
      else
        bind_sum (fromExpression leftExpr) (\<lambda>left.
        bind_sum (fromExpression rightExpr) (\<lambda>right.
          updateGivenOp operator [left, right])))"
| "fromExpression (UnaryExpression operator expr) =
     bind_sum (fromExpression expr) (\<lambda>rg. updateGivenOp operator [rg])"
| "fromExpression expr = Inl CannotResolvePrimitive"

text \<open>The syntax tree of \<open>(age >= 18) and (age < 65)\<close>.\<close>

definition age_18_to_65 :: RefinementExpressionNode where
  "age_18_to_65 =
     BinaryExpressionNode
       (BinaryExpressionNode (FieldNode ''age'') ''>='' (NumberNode (Fin 18)))
       ''and''
       (BinaryExpressionNode (FieldNode ''age'') ''<'' (NumberNode (Fin 65)))"

subsection \<open>Properties of normalisation\<close>

text \<open>
  The expressions that the constructors admit: at every binary and unary node
  \<open>validateOperandCompatibility\<close> accepted the types of the operands.
\<close>

fun well_typed :: "RefinementExpression \<Rightarrow> bool" where
  "well_typed (BinaryExpression l operator r) =
     (well_typed l \<and> well_typed r
      \<and> validateOperandCompatibility operator [evalType l, evalType r] = Inr ())"
| "well_typed (UnaryExpression operator e) =
     (well_typed e \<and> validateOperandCompatibility operator [evalType e] = Inr ())"
| "well_typed e = True"

lemma fromAst_well_typed: "fromAst node typeData = Inr e \<Longrightarrow> well_typed e"
  by (induction node typeData arbitrary: e rule: fromAst.induct)
     (auto simp: bind_sum_def split: sum.splits option.splits)

fun is_BooleanPrimitive :: "RefinementExpression \<Rightarrow> bool" where
  "is_BooleanPrimitive (BooleanPrimitive b) = True"
| "is_BooleanPrimitive e = False"

text \<open>
  What \<open>normalise\<close> leaves of negations: no \<open>not\<close> directly over a boolean primitive or
  over another \<open>not\<close>, anywhere in the tree.
\<close>

fun not_reduced :: "RefinementExpression \<Rightarrow> bool" where
  "not_reduced (BinaryExpression l operator r) = (not_reduced l \<and> not_reduced r)"
| "not_reduced (UnaryExpression operator e) =
     (not_reduced e \<and> (operator = NOT \<longrightarrow> \<not> is_BooleanPrimitive e \<and> \<not> is_NOT_expression e))"
| "not_reduced e = True"

lemma simplifyPrimitive_binary_Simplified:
  "simplifyPrimitive_binary l operator r = Simplified sp \<Longrightarrow> not_reduced sp"
  by (cases l; cases r)
     (auto simp: BooleanPrimitive_fromValue_def NumberPrimitive_fromValue_def
           split: if_splits option.splits js_value.splits)

lemma simplifyPrimitive_unary_Simplified:
  "simplifyPrimitive_unary operator e = Simplified sp \<Longrightarrow> not_reduced sp"
  by (cases e)
     (auto simp: BooleanPrimitive_fromValue_def NumberPrimitive_fromValue_def
           split: if_splits option.splits js_value.splits)

lemma not_reduced_normalise_switch:
  "not_reduced l \<Longrightarrow> not_reduced r \<Longrightarrow> not_reduced (normalise_switch l operator r)"
  by (auto simp: normalise_switch_def split: Op.splits RefinementExpression.splits)

lemma simplifyPrimitive_unary_NotSimplified:
  "simplifyPrimitive_unary NOT e = NotSimplified \<Longrightarrow> \<not> is_BooleanPrimitive e"
  by (cases e) (auto simp: BooleanPrimitive_fromValue_def evalFn_def)

lemma not_reduced_unary_expr: "not_reduced e \<Longrightarrow> not_reduced (unary_expr e)"
  by (cases e) auto

lemma not_reduced_normalise_switch_unary:
  "not_reduced e \<Longrightarrow> simplifyPrimitive_unary operator e = NotSimplified
     \<Longrightarrow> not_reduced (normalise_switch_unary operator e)"
  by (auto simp: normalise_switch_unary_def not_reduced_unary_expr
           dest: simplifyPrimitive_unary_NotSimplified)

lemma normalise_binary_not_reduced:
  "not_reduced l \<Longrightarrow> not_reduced r \<Longrightarrow> normalise_binary l operator r = Some y \<Longrightarrow> not_reduced y"
  by (auto simp: normalise_binary_def swapChildren_def not_reduced_normalise_switch
           dest: simplifyPrimitive_binary_Simplified
           split: Simplified.splits if_splits)

lemma normalise_unary_not_reduced:
  "not_reduced e \<Longrightarrow> normalise_unary operator e = Some y \<Longrightarrow> not_reduced y"
  by (auto simp: normalise_unary_def not_reduced_normalise_switch_unary
           dest: simplifyPrimitive_unary_Simplified
           split: Simplified.splits)

lemma normalise_not_reduced: "normalise x = Some y \<Longrightarrow> not_reduced y"
proof (induction x arbitrary: y)
  case (BinaryExpression l operator r)
  then show ?case
    by (auto split: bind_splits intro: normalise_binary_not_reduced)
next
  case (UnaryExpression operator e)
  then show ?case
    by (auto split: bind_splits intro: normalise_unary_not_reduced)
qed auto

lemma normalise_and_true:
  "normalise x = Some y \<Longrightarrow> normalise (BinaryExpression x AND (BooleanPrimitive True)) = Some y"
  by (cases y)
     (simp_all add: normalise_binary_def normalise_switch_def BooleanPrimitive_fromValue_def evalFn_def)

lemma normalise_and_false:
  "normalise x = Some y \<Longrightarrow>
     normalise (BinaryExpression x AND (BooleanPrimitive False)) = Some (BooleanPrimitive False)"
  by (cases y)
     (simp_all add: normalise_binary_def normalise_switch_def BooleanPrimitive_fromValue_def evalFn_def)

lemma normalise_or_true:
  "normalise x = Some y \<Longrightarrow>
     normalise (BinaryExpression x OR (BooleanPrimitive True)) = Some (BooleanPrimitive True)"
  by (cases y)
     (simp_all add: normalise_binary_def normalise_switch_def BooleanPrimitive_fromValue_def evalFn_def)

lemma normalise_or_false:
  "normalise x = Some y \<Longrightarrow> normalise (BinaryExpression x OR (BooleanPrimitive False)) = Some y"
  by (cases y)
     (simp_all add: normalise_binary_def normalise_switch_def BooleanPrimitive_fromValue_def evalFn_def)

lemma normalise_not_not:
  assumes "normalise x = Some y"
  shows "normalise (UnaryExpression NOT (UnaryExpression NOT x)) = Some y"
proof -
  have nf: "not_reduced y" using assms by (rule normalise_not_reduced)
  show ?thesis
  proof (cases y)
    case (UnaryExpression operator e)
    show ?thesis
    proof (cases "operator = NOT")
      case True
      with nf UnaryExpression have e: "\<not> is_BooleanPrimitive e" "\<not> is_NOT_expression e"
        by auto
      then have "simplifyPrimitive_unary NOT e = NotSimplified"
        by (cases e) auto
      with e assms UnaryExpression True show ?thesis
        by (simp add: normalise_unary_def normalise_switch_unary_def)
    next
      case False
      with assms UnaryExpression show ?thesis
        by (simp add: normalise_unary_def normalise_switch_unary_def)
    qed
  qed (use assms in \<open>simp_all add: normalise_unary_def normalise_switch_unary_def
          BooleanPrimitive_fromValue_def evalFn_def\<close>)
qed


lemma validate_binary_iff:
  "validateOperandCompatibility operator [a, b] = Inr () \<longleftrightarrow>
     nArgs operator = 2 \<and> (case argType operator of Same \<Rightarrow> a = b | ArgOf t \<Rightarrow> a = t \<and> b = t)"
  by (auto simp: validateOperandCompatibility_def split: ArgType.splits list.splits if_splits)

lemma validate_unary_iff:
  "validateOperandCompatibility operator [a] = Inr () \<longleftrightarrow>
     nArgs operator = 1 \<and> argType operator = ArgOf a"
  by (cases operator)
     (auto simp: validateOperandCompatibility_def split: ArgType.splits list.splits if_splits)

lemma validate_swapped:
  "validateOperandCompatibility operator [a, b] = Inr () \<Longrightarrow>
     validateOperandCompatibility (swapped_op operator) [b, a] = Inr ()"
  by (cases operator) (auto simp: validate_binary_iff)

lemma op_evalType_swapped: "op_evalType (swapped_op operator) = op_evalType operator"
  by (cases operator) auto

lemma simplifyPrimitive_binary_typed:
  assumes "validateOperandCompatibility operator [evalType l, evalType r] = Inr ()"
  shows "simplifyPrimitive_binary l operator r = NotSimplified
       \<or> (\<exists>sp. simplifyPrimitive_binary l operator r = Simplified sp
             \<and> well_typed sp \<and> evalType sp = op_evalType operator)"
proof (cases l)
  case lb: (BooleanPrimitive a)
  show ?thesis
  proof (cases r)
    case (BooleanPrimitive b)
    with lb assms show ?thesis
      by (cases operator)
         (auto simp: validate_binary_iff evalFn_def BooleanPrimitive_fromValue_def)
  qed (use lb in auto)
next
  case ln: (NumberPrimitive a)
  show ?thesis
  proof (cases r)
    case (NumberPrimitive b)
    with ln assms show ?thesis
      by (cases operator)
         (auto simp: validate_binary_iff evalFn_def BooleanPrimitive_fromValue_def
            NumberPrimitive_fromValue_def)
  qed (use ln in auto)
qed auto

lemma simplifyPrimitive_unary_typed:
  assumes "validateOperandCompatibility operator [evalType e] = Inr ()"
  shows "simplifyPrimitive_unary operator e = NotSimplified
       \<or> (\<exists>sp. simplifyPrimitive_unary operator e = Simplified sp
             \<and> well_typed sp \<and> evalType sp = op_evalType operator)"
  using assms
  by (cases e)
     (auto simp: validate_unary_iff evalFn_def BooleanPrimitive_fromValue_def
        NumberPrimitive_fromValue_def)

lemma normalise_switch_typed:
  assumes "well_typed l" "well_typed r"
    and "validateOperandCompatibility operator [evalType l, evalType r] = Inr ()"
  shows "well_typed (normalise_switch l operator r)
       \<and> evalType (normalise_switch l operator r) = op_evalType operator"
  using assms
  by (cases operator)
     (auto simp: normalise_switch_def validate_binary_iff split: RefinementExpression.splits)

lemma normalise_switch_unary_typed:
  assumes "well_typed e" and "validateOperandCompatibility operator [evalType e] = Inr ()"
  shows "well_typed (normalise_switch_unary operator e)
       \<and> evalType (normalise_switch_unary operator e) = op_evalType operator"
proof (cases "operator = NOT \<and> is_NOT_expression e")
  case True
  then obtain operator' inner where e: "e = UnaryExpression operator' inner" and "operator' = NOT"
    by (cases e) auto
  with True assms show ?thesis
    by (auto simp: normalise_switch_unary_def validate_unary_iff)
next
  case False
  with assms show ?thesis
    by (auto simp: normalise_switch_unary_def)
qed

lemma normalise_well_typed:
  "well_typed x \<Longrightarrow> \<exists>y. normalise x = Some y \<and> well_typed y \<and> evalType y = evalType x"
proof (induction x)
  case (BinaryExpression l operator r)
  then obtain l' r' where l': "normalise l = Some l'" "well_typed l'" "evalType l' = evalType l"
    and r': "normalise r = Some r'" "well_typed r'" "evalType r' = evalType r"
    by auto
  have v: "validateOperandCompatibility operator [evalType l', evalType r'] = Inr ()"
    using BinaryExpression.prems l' r' by simp
  from simplifyPrimitive_binary_typed [OF v] show ?case
  proof
    assume ns: "simplifyPrimitive_binary l' operator r' = NotSimplified"
    show ?thesis
    proof (cases "is_FieldNamePrimitive r'")
      case True
      with ns l' r' normalise_switch_typed [OF r'(2) l'(2) validate_swapped [OF v]]
      show ?thesis by (simp add: normalise_binary_def swapChildren_def op_evalType_swapped)
    next
      case False
      with ns l' r' normalise_switch_typed [OF l'(2) r'(2) v]
      show ?thesis by (simp add: normalise_binary_def)
    qed
  next
    assume "\<exists>sp. simplifyPrimitive_binary l' operator r' = Simplified sp
             \<and> well_typed sp \<and> evalType sp = op_evalType operator"
    with l' r' show ?thesis by (auto simp: normalise_binary_def)
  qed
next
  case (UnaryExpression operator e)
  then obtain e' where e': "normalise e = Some e'" "well_typed e'" "evalType e' = evalType e"
    by auto
  have v: "validateOperandCompatibility operator [evalType e'] = Inr ()"
    using UnaryExpression.prems e' by simp
  from simplifyPrimitive_unary_typed [OF v] show ?case
  proof
    assume "simplifyPrimitive_unary operator e' = NotSimplified"
    with e' normalise_switch_unary_typed [OF e'(2) v] show ?thesis
      by (simp add: normalise_unary_def)
  next
    assume "\<exists>sp. simplifyPrimitive_unary operator e' = Simplified sp
             \<and> well_typed sp \<and> evalType sp = op_evalType operator"
    with e' show ?thesis by (auto simp: normalise_unary_def)
  qed
qed auto


text \<open>
  C7: for every expression \<open>x\<close> that the constructors admit, \<open>normalise\<close> returns a
  result \<open>y\<close> on \<open>x\<close>, and normalising \<open>x and true\<close> yields \<open>y\<close>, \<open>x and false\<close> yields
  \<open>false\<close>, \<open>x or true\<close> yields \<open>true\<close>, \<open>x or false\<close> yields \<open>y\<close>, and \<open>not (not x)\<close>
  yields \<open>y\<close>.
\<close>

theorem C7_normalise_identity_laws:
  assumes "well_typed x"
  shows "\<exists>y. normalise x = Some y
     \<and> normalise (BinaryExpression x AND (BooleanPrimitive True)) = Some y
     \<and> normalise (BinaryExpression x AND (BooleanPrimitive False)) = Some (BooleanPrimitive False)
     \<and> normalise (BinaryExpression x OR (BooleanPrimitive True)) = Some (BooleanPrimitive True)
     \<and> normalise (BinaryExpression x OR (BooleanPrimitive False)) = Some y
     \<and> normalise (UnaryExpression NOT (UnaryExpression NOT x)) = Some y"
proof -
  from normalise_well_typed [OF assms] obtain y where y: "normalise x = Some y" by blast
  show ?thesis
    using y normalise_and_true [OF y] normalise_and_false [OF y] normalise_or_true [OF y]
      normalise_or_false [OF y] normalise_not_not [OF y]
    by blast
qed

theorem C7_normalise_identity_laws_witness:
  "well_typed (BinaryExpression (NumberPrimitive (Fin 18)) LTE (FieldNamePrimitive ''age'' Number))
   \<and> normalise (BinaryExpression
         (BinaryExpression (NumberPrimitive (Fin 18)) LTE (FieldNamePrimitive ''age'' Number))
         AND (BooleanPrimitive True))
       = Some (BinaryExpression (FieldNamePrimitive ''age'' Number) GTE (NumberPrimitive (Fin 18)))
   \<and> normalise (UnaryExpression NOT (UnaryExpression NOT
         (BinaryExpression (NumberPrimitive (Fin 18)) LTE (FieldNamePrimitive ''age'' Number))))
       = Some (BinaryExpression (FieldNamePrimitive ''age'' Number) GTE (NumberPrimitive (Fin 18)))"
proof -
  have wt: "well_typed (BinaryExpression (NumberPrimitive (Fin 18)) LTE (FieldNamePrimitive ''age'' Number))"
    by (simp add: validateOperandCompatibility_def)
  have n: "normalise (BinaryExpression (NumberPrimitive (Fin 18)) LTE (FieldNamePrimitive ''age'' Number))
      = Some (BinaryExpression (FieldNamePrimitive ''age'' Number) GTE (NumberPrimitive (Fin 18)))"
    by (simp add: normalise_binary_def swapChildren_def normalise_switch_def)
  from C7_normalise_identity_laws [OF wt] wt n show ?thesis by auto
qed

subsection \<open>The range of a refinement\<close>

text \<open>The scenario of C6, evaluated step by step.\<close>

lemmas range_defs =
  makeInitialGivenOp_def updateGivenOp_def range_at_def intersectionOf_def unionOf_def
  complementOf_def difference_def infiniteRange_def Range_intersect_def copyOf_def newRange_def
  unionWithSeg_def array_splice_def overlap_def merge_segments_def overlapsWith_def mergeableWith_def
  isLessThan_def isGreaterThan_def newSegment_def isValid_def openOpen_def closedOpen_def
  openClosed_def closedClosed_def flip_kind_def js_eq_def js_gt_def

lemma fromAst_age_18_to_65: "fromAst age_18_to_65 [''age'' \<mapsto> Number] =
   Inr (BinaryExpression
         (BinaryExpression (FieldNamePrimitive ''age'' Number) GTE (NumberPrimitive (Fin 18)))
         AND
         (BinaryExpression (FieldNamePrimitive ''age'' Number) LT (NumberPrimitive (Fin 65))))"
  by (simp add: age_18_to_65_def newRefinementOperator_def op_table_def
        validateOperandCompatibility_def)

lemma makeInitialGivenOp_GTE_18: "makeInitialGivenOp GTE (Fin 18)
   = Inr [\<lparr>from' = \<lparr>val = Fin 18, kind = Closed\<rparr>, to' = \<lparr>val = PosInf, kind = Open\<rparr>\<rparr>]"
  by (simp add: range_defs)

lemma makeInitialGivenOp_LT_65: "makeInitialGivenOp LT (Fin 65)
   = Inr [\<lparr>from' = \<lparr>val = NegInf, kind = Open\<rparr>, to' = \<lparr>val = Fin 65, kind = Open\<rparr>\<rparr>]"
  by (simp add: range_defs)

lemma intersectionOf_age: "intersectionOf
     [\<lparr>from' = \<lparr>val = Fin 18, kind = Closed\<rparr>, to' = \<lparr>val = PosInf, kind = Open\<rparr>\<rparr>]
     [\<lparr>from' = \<lparr>val = NegInf, kind = Open\<rparr>, to' = \<lparr>val = Fin 65, kind = Open\<rparr>\<rparr>]
   = Inr [\<lparr>from' = \<lparr>val = Fin 18, kind = Closed\<rparr>, to' = \<lparr>val = Fin 65, kind = Open\<rparr>\<rparr>]"
  by (simp add: range_defs)

lemma fromExpression_age: "fromExpression (BinaryExpression
         (BinaryExpression (FieldNamePrimitive ''age'' Number) GTE (NumberPrimitive (Fin 18)))
         AND
         (BinaryExpression (FieldNamePrimitive ''age'' Number) LT (NumberPrimitive (Fin 65))))
   = Inr [\<lparr>from' = \<lparr>val = Fin 18, kind = Closed\<rparr>, to' = \<lparr>val = Fin 65, kind = Open\<rparr>\<rparr>]"
  by (simp add: makeInitialGivenOp_GTE_18 makeInitialGivenOp_LT_65 intersectionOf_age updateGivenOp_def range_at_def)

lemma infiniteRange_value: "infiniteRange = Inr [\<lparr>from' = \<lparr>val = NegInf, kind = Open\<rparr>, to' = \<lparr>val = PosInf, kind = Open\<rparr>\<rparr>]"
  by (simp add: range_defs)

lemma complementOf_age: "complementOf [\<lparr>from' = \<lparr>val = Fin 18, kind = Closed\<rparr>, to' = \<lparr>val = Fin 65, kind = Open\<rparr>\<rparr>]
   = Inr [\<lparr>from' = \<lparr>val = NegInf, kind = Open\<rparr>, to' = \<lparr>val = Fin 18, kind = Open\<rparr>\<rparr>,
          \<lparr>from' = \<lparr>val = Fin 65, kind = Closed\<rparr>, to' = \<lparr>val = PosInf, kind = Open\<rparr>\<rparr>]"
  by (simp add: complementOf_def infiniteRange_value difference_def copyOf_def newRange_def
      unionWithSeg_def array_splice_def overlap_def overlapsWith_def
      isLessThan_def isGreaterThan_def newSegment_def isValid_def flip_kind_def js_eq_def js_gt_def)

text \<open>
  C6: the refinement \<open>(age >= 18) and (age < 65)\<close> over the Number field \<open>age\<close> is
  constructed without error and is its own normal form, \<open>fromExpression\<close> gives for it
  the single segment \<open>[18,65)\<close>,
  and \<open>complementOf\<close> that range (with respect to the default \<open>(-\<infinity>,+\<infinity>)\<close>) gives the two
  segments \<open>(-\<infinity>,18)\<close> and \<open>[65,+\<infinity>)\<close>.
\<close>

theorem C6_age_range_and_complement:
  "map_sum id normalise (fromAst age_18_to_65 [''age'' \<mapsto> Number])
     = map_sum id Some (fromAst age_18_to_65 [''age'' \<mapsto> Number])
   \<and> bind_sum (fromAst age_18_to_65 [''age'' \<mapsto> Number]) fromExpression
     = Inr [\<lparr>from' = \<lparr>val = Fin 18, kind = Closed\<rparr>, to' = \<lparr>val = Fin 65, kind = Open\<rparr>\<rparr>]
   \<and> bind_sum (bind_sum (fromAst age_18_to_65 [''age'' \<mapsto> Number]) fromExpression) complementOf
     = Inr [\<lparr>from' = \<lparr>val = NegInf, kind = Open\<rparr>, to' = \<lparr>val = Fin 18, kind = Open\<rparr>\<rparr>,
            \<lparr>from' = \<lparr>val = Fin 65, kind = Closed\<rparr>, to' = \<lparr>val = PosInf, kind = Open\<rparr>\<rparr>]"
  unfolding fromAst_age_18_to_65 bind_sum_simps fromExpression_age complementOf_age
  by (simp add: normalise_binary_def normalise_switch_def)

section \<open>Recipe normalization (recipe.ts)\<close>

subsection \<open>The recipe and its nodes\<close>

text \<open>
  Particles, handles, slots, connections and constraints are objects that the recipe
  and each other refer to; a reference is a number and the recipe state holds the
  object at each reference. Of each node class the records below keep the fields that
  \<open>recipe.ts\<close> reads; the remainder of the node is the component \<open>rest\<close>, of a
  type the recipe code does not look into.
\<close>

type_synonym ref = nat

record 'x Particle =
  connections :: "ref list"
  unnamedConnections :: "ref list"
  consumedSlotConnections :: "ref list"
  particle_rest :: 'x

text \<open>The field \<open>id\<close> of a handle or of a slot; an absent id is \<open>None\<close>.\<close>

record 'x Handle =
  handle_id :: "string option"
  handle_rest :: 'x

record 'x Slot =
  slot_id :: "string option"
  slot_rest :: 'x

text \<open>
  A handle connection: its particle, its handle if it has one, and whether
  \<open>type && type.isInterface\<close> holds.
\<close>

record 'x HandleConnection =
  particle :: ref
  handle :: "ref option"
  type_isInterface :: bool
  handleConnection_rest :: 'x

record 'x SlotConnection =
  targetSlot :: "ref option"
  providedSlots :: "ref list"
  slotConnection_rest :: 'x

text \<open>
  The recipe: its arrays of references, the optional search, the node objects, and
  whether \<open>Object.freeze\<close> has been applied (to the recipe and, in the same place of
  \<open>normalize\<close>, to its arrays).
\<close>

record ('x, 's) Recipe =
  particles :: "ref list"
  handles :: "ref list"
  slots :: "ref list"
  connectionConstraints :: "ref list"
  obligations :: "ref list"
  verbs :: "string list"
  patterns :: "string list"
  search :: "'s option"
  isFrozen :: bool
  particle_at :: "ref \<Rightarrow> 'x Particle"
  handle_at :: "ref \<Rightarrow> 'x Handle"
  slot_at :: "ref \<Rightarrow> 'x Slot"
  handleConnection_at :: "ref \<Rightarrow> 'x HandleConnection"
  slotConnection_at :: "ref \<Rightarrow> 'x SlotConnection"
  constraint_at :: "ref \<Rightarrow> 'x"

datatype NodeKind = ParticleNode | HandleNode | SlotNode | HandleConnectionNode | SlotConnectionNode
  | ConstraintNode

text \<open>The keys of the map \<open>options.errors\<close>: the recipe itself or one of its nodes.\<close>

datatype ErrorKey = TheRecipe | TheNode NodeKind ref

type_synonym Errors = "(ErrorKey, string) js_map"

text \<open>
  \<open>options\<close> as far as \<open>normalize\<close> uses it: \<open>Some errors\<close> when \<open>options && options.errors\<close>
  holds, \<open>None\<close> otherwise.
\<close>

type_synonym Options = "Errors option"

definition errors_set :: "Options \<Rightarrow> ErrorKey \<Rightarrow> string \<Rightarrow> Options" where
  "errors_set options k message = map_option (\<lambda>errors. map_set errors k message) options"


subsection \<open>Methods of the node classes\<close>

text \<open>
  \<open>recipe.ts\<close> calls methods of the node classes whose code is in other files:
  \<open>_isValid(options)\<close>, \<open>_startNormalize()\<close>, \<open>_normalize()\<close>, \<open>_finishNormalize()\<close>, the
  comparator \<open>compareComparables\<close>, and \<open>isValid()\<close> and \<open>_normalize()\<close> of the search.
  They are parameters of the model. A validity check reads the recipe and yields its
  verdict and the error entries it records when an errors map is supplied; a
  normalization step yields the recipe state after it.
\<close>

record ('x, 's) NodeMethods =
  node_isValid :: "('x, 's) Recipe \<Rightarrow> NodeKind \<Rightarrow> ref \<Rightarrow> bool"
  node_isValid_errors :: "('x, 's) Recipe \<Rightarrow> NodeKind \<Rightarrow> ref \<Rightarrow> (ErrorKey \<times> string) list"
  startNormalize :: "NodeKind \<Rightarrow> ref \<Rightarrow> ('x, 's) Recipe \<Rightarrow> ('x, 's) Recipe"
  normalizeConnection :: "NodeKind \<Rightarrow> ref \<Rightarrow> ('x, 's) Recipe \<Rightarrow> ('x, 's) Recipe"
  finishNormalize :: "NodeKind \<Rightarrow> ref \<Rightarrow> ('x, 's) Recipe \<Rightarrow> ('x, 's) Recipe"
  compareComparables :: "('x, 's) Recipe \<Rightarrow> NodeKind \<Rightarrow> ref \<Rightarrow> ref \<Rightarrow> int"
  search_isValid :: "'s \<Rightarrow> bool"
  search_normalize :: "'s \<Rightarrow> 's"

subsection \<open>Getters and validity\<close>

definition handleConnections :: "('x, 's) Recipe \<Rightarrow> ref list" where
  "handleConnections this =
     concat (map (\<lambda>p. connections (particle_at this p) @ unnamedConnections (particle_at this p))
                 (particles this))"

definition slotConnections :: "('x, 's) Recipe \<Rightarrow> ref list" where
  "slotConnections this =
     concat (map (\<lambda>p. consumedSlotConnections (particle_at this p)) (particles this))"

text \<open>
  The callback of \<open>items.find\<close> in \<open>_findDuplicate\<close>: an item with a truthy id (present
  and not the empty string) that has been seen before is the result; otherwise its id
  is added to the seen ids.
\<close>

fun find_duplicate :: "(ref \<Rightarrow> string option) \<Rightarrow> ref list \<Rightarrow> string list \<Rightarrow> ref option" where
  "find_duplicate id_of [] seen = None"
| "find_duplicate id_of (item # items) seen =
     (case id_of item of
        None \<Rightarrow> find_duplicate id_of items seen
      | Some i \<Rightarrow>
          if i = [] then find_duplicate id_of items seen
          else if i \<in> set seen then Some item
          else find_duplicate id_of items (i # seen))"

definition id_of :: "('x, 's) Recipe \<Rightarrow> NodeKind \<Rightarrow> ref \<Rightarrow> string option" where
  "id_of this k item = (if k = HandleNode then handle_id (handle_at this item) else slot_id (slot_at this item))"

text \<open>
  \<open>_findDuplicate(items, options)\<close>, for the handles (\<open>k = HandleNode\<close>) or the slots:
  the duplicate if there is one, and the options after recording it.
\<close>

definition findDuplicate ::
  "('x, 's) Recipe \<Rightarrow> NodeKind \<Rightarrow> ref list \<Rightarrow> Options \<Rightarrow> ref option \<times> Options" where
  "findDuplicate this k items options =
     (case find_duplicate (id_of this k) items [] of
        None \<Rightarrow> (None, options)
      | Some duplicate \<Rightarrow>
          (Some duplicate,
           errors_set options (TheNode k duplicate)
             (''Has Duplicate '' @ (if k = HandleNode then ''Handle'' else ''Slot'') @ '' '' @ [CHR 0x27]
                @ (case id_of this k duplicate of None \<Rightarrow> [] | Some i \<Rightarrow> i) @ [CHR 0x27])))"

text \<open>One call \<open>item._isValid(options)\<close>: the verdict and the options after it.\<close>

definition item_isValid ::
  "('x, 's) NodeMethods \<Rightarrow> ('x, 's) Recipe \<Rightarrow> NodeKind \<Rightarrow> ref \<Rightarrow> Options \<Rightarrow> bool \<times> Options" where
  "item_isValid m this k item options =
     (node_isValid m this k item,
      fold (\<lambda>(key, message) opts. errors_set opts key message) (node_isValid_errors m this k item) options)"

text \<open>\<open>list.every(item => item._isValid(options))\<close>, which stops at the first invalid item.\<close>

fun every_isValid ::
  "('x, 's) NodeMethods \<Rightarrow> ('x, 's) Recipe \<Rightarrow> NodeKind \<Rightarrow> ref list \<Rightarrow> Options \<Rightarrow> bool \<times> Options" where
  "every_isValid m this k [] options = (True, options)"
| "every_isValid m this k (item # items) options =
     (case item_isValid m this k item options of
        (valid, options') \<Rightarrow>
          if valid then every_isValid m this k items options' else (False, options'))"

text \<open>
  \<open>_isValid(options)\<close>: the conjunction, evaluated from the left and stopped at the
  first false conjunct.
\<close>

definition and_then :: "bool \<times> Options \<Rightarrow> (Options \<Rightarrow> bool \<times> Options) \<Rightarrow> bool \<times> Options" where
  "and_then c rest = (if fst c then rest (snd c) else c)"

definition isValid_recipe :: "('x, 's) NodeMethods \<Rightarrow> ('x, 's) Recipe \<Rightarrow> Options \<Rightarrow> bool \<times> Options" where
  "isValid_recipe m this options =
     and_then (case findDuplicate this HandleNode (handles this) options of
                 (d, options') \<Rightarrow> (d = None, options')) (\<lambda>options.
     and_then (case findDuplicate this SlotNode (slots this) options of
                 (d, options') \<Rightarrow> (d = None, options')) (\<lambda>options.
     and_then (every_isValid m this HandleNode (handles this) options) (\<lambda>options.
     and_then (every_isValid m this ParticleNode (particles this) options) (\<lambda>options.
     and_then (every_isValid m this SlotNode (slots this) options) (\<lambda>options.
     and_then (every_isValid m this HandleConnectionNode (handleConnections this) options) (\<lambda>options.
     and_then (every_isValid m this SlotConnectionNode (slotConnections this) options) (\<lambda>options.
       (case search this of None \<Rightarrow> True | Some s \<Rightarrow> search_isValid m s, options))))))))"

text \<open>\<open>checkForInvalid(list)\<close>: \<open>_isValid(options)\<close> on every item, for the errors only.\<close>

definition checkForInvalid ::
  "('x, 's) NodeMethods \<Rightarrow> ('x, 's) Recipe \<Rightarrow> NodeKind \<Rightarrow> ref list \<Rightarrow> Options \<Rightarrow> Options" where
  "checkForInvalid m this k items options =
     fold (\<lambda>item opts. snd (item_isValid m this k item opts)) items options"


subsection \<open>normalize\<close>

text \<open>
  \<open>Array.prototype.sort(compare)\<close>, as a stable insertion sort: an element goes before
  the first element it compares less than.
\<close>

fun insert_sorted :: "('a \<Rightarrow> 'a \<Rightarrow> int) \<Rightarrow> 'a \<Rightarrow> 'a list \<Rightarrow> 'a list" where
  "insert_sorted compare x [] = [x]"
| "insert_sorted compare x (y # ys) =
     (if compare x y < 0 then x # y # ys else y # insert_sorted compare x ys)"

definition array_sort :: "('a \<Rightarrow> 'a \<Rightarrow> int) \<Rightarrow> 'a list \<Rightarrow> 'a list" where
  "array_sort compare xs = foldl (\<lambda>sorted x. insert_sorted compare x sorted) [] xs"

text \<open>The default comparison of \<open>sort()\<close> on strings, by character codes.\<close>

fun compare_strings :: "string \<Rightarrow> string \<Rightarrow> int" where
  "compare_strings [] [] = 0"
| "compare_strings [] (b # bs) = - 1"
| "compare_strings (a # as) [] = 1"
| "compare_strings (a # as) (b # bs) =
     (if (of_char a :: nat) < of_char b then - 1
      else if (of_char b :: nat) < of_char a then 1
      else compare_strings as bs)"

text \<open>Pushing an item that has not been seen (the seen set holds the pushed items).\<close>

definition push_unseen :: "ref list \<Rightarrow> ref \<Rightarrow> ref list" where
  "push_unseen seen x = (if x \<in> set seen then seen else seen @ [x])"

text \<open>
  The loop over the handle connections, interface connections last: the particles and
  the handles in order of first appearance.
\<close>

fun order_by_connections ::
  "('x, 's) Recipe \<Rightarrow> ref list \<Rightarrow> ref list \<times> ref list \<Rightarrow> ref list \<times> ref list" where
  "order_by_connections this [] acc = acc"
| "order_by_connections this (connection # rest) (ps, hs) =
     order_by_connections this rest
       (push_unseen ps (particle (handleConnection_at this connection)),
        (case handle (handleConnection_at this connection) of
           None \<Rightarrow> hs
         | Some h \<Rightarrow> push_unseen hs h))"

text \<open>The loop over the slot connections: each target slot, then its provided slots.\<close>

fun order_slots :: "('x, 's) Recipe \<Rightarrow> ref list \<Rightarrow> ref list \<Rightarrow> ref list" where
  "order_slots this [] acc = acc"
| "order_slots this (slotConnection # rest) acc =
     order_slots this rest
       (fold (\<lambda>ps seen. push_unseen seen ps)
          (providedSlots (slotConnection_at this slotConnection))
          (case targetSlot (slotConnection_at this slotConnection) of
             None \<Rightarrow> acc
           | Some t \<Rightarrow> push_unseen acc t))"

text \<open>
  The part of \<open>normalize\<close> after the two refusals. Each loop runs over the array as it
  is when the loop starts.
\<close>

definition normalize_valid :: "('x, 's) NodeMethods \<Rightarrow> ('x, 's) Recipe \<Rightarrow> ('x, 's) Recipe" where
  "normalize_valid m this0 =
     (let this1 = fold (startNormalize m ParticleNode) (particles this0) this0;
          this2 = fold (startNormalize m HandleNode) (handles this1) this1;
          this3 = fold (startNormalize m SlotNode) (slots this2) this2;
          connections0 = handleConnections this3;
          this4 = fold (normalizeConnection m HandleConnectionNode) connections0 this3;
          connections = array_sort (compareComparables m this4 HandleConnectionNode) connections0;
          slotConnections0 = slotConnections this4;
          this5 = fold (normalizeConnection m SlotConnectionNode) slotConnections0 this4;
          slotConnections1 = array_sort (compareComparables m this5 SlotConnectionNode) slotConnections0;
          this6 = this5\<lparr>search := map_option (search_normalize m) (search this5)\<rparr>;
          this7 = fold (finishNormalize m ParticleNode) (particles this6) this6;
          this8 = fold (finishNormalize m HandleNode) (handles this7) this7;
          this9 = fold (finishNormalize m SlotNode) (slots this8) this8;
          ordered = order_by_connections this9
            (filter (\<lambda>c. \<not> type_isInterface (handleConnection_at this9 c)) connections
             @ filter (\<lambda>c. type_isInterface (handleConnection_at this9 c)) connections)
            ([], []);
          seenParticles = fst ordered;
          seenHandles = snd ordered;
          seenSlots = order_slots this9 slotConnections1 [];
          orphanedHandles = array_sort (compareComparables m this9 HandleNode)
            (filter (\<lambda>h. h \<notin> set seenHandles) (handles this9));
          orphanedParticles = array_sort (compareComparables m this9 ParticleNode)
            (filter (\<lambda>p. p \<notin> set seenParticles) (particles this9));
          orphanedSlots = array_sort (compareComparables m this9 SlotNode)
            (filter (\<lambda>s. s \<notin> set seenSlots) (slots this9))
      in this9\<lparr>particles := seenParticles @ orphanedParticles,
               handles := seenHandles @ orphanedHandles,
               slots := seenSlots @ orphanedSlots,
               connectionConstraints :=
                 array_sort (compareComparables m this9 ConstraintNode) (connectionConstraints this9),
               verbs := array_sort compare_strings (verbs this9),
               patterns := array_sort compare_strings (patterns this9),
               isFrozen := True\<rparr>)"

text \<open>
  \<open>normalize(options)\<close>, named \<open>Recipe_normalize\<close> here: the returned boolean, the recipe
  after the call and the options after the call.
\<close>

definition Recipe_normalize ::
  "('x, 's) NodeMethods \<Rightarrow> ('x, 's) Recipe \<Rightarrow> Options \<Rightarrow> bool \<times> ('x, 's) Recipe \<times> Options" where
  "Recipe_normalize m this options =
     (if isFrozen this then
        (False, this, errors_set options TheRecipe ''already normalized'')
      else if \<not> fst (isValid_recipe m this None) then
        (False, this,
         checkForInvalid m this SlotConnectionNode (slotConnections this)
          (checkForInvalid m this HandleConnectionNode (handleConnections this)
           (checkForInvalid m this SlotNode (slots this)
            (checkForInvalid m this ParticleNode (particles this)
             (checkForInvalid m this HandleNode (handles this)
              (snd (findDuplicate this SlotNode (slots this)
                (snd (findDuplicate this HandleNode (handles this) options)))))))))
      else (True, normalize_valid m this, options))"


subsection \<open>The refusals of normalize\<close>

lemma isFrozen_normalize_valid: "isFrozen (normalize_valid m this)"
  by (simp add: normalize_valid_def Let_def)

lemma errors_set_None: "errors_set None k message = None"
  by (simp add: errors_set_def)

lemma item_isValid_None: "snd (item_isValid m this k item None) = None"
proof -
  have "fold (\<lambda>(key, message) opts. errors_set opts key message) es None = None" for es
    by (induction es) (auto simp: errors_set_None)
  then show ?thesis by (simp add: item_isValid_def)
qed

lemma checkForInvalid_None: "checkForInvalid m this k items None = None"
  unfolding checkForInvalid_def
  by (induction items) (simp_all add: item_isValid_None)

lemma findDuplicate_None: "snd (findDuplicate this k items None) = None"
  by (simp add: findDuplicate_def errors_set_None split: option.splits)

lemma fst_findDuplicate:
  "fst (findDuplicate this k items options) = find_duplicate (id_of this k) items []"
  by (simp add: findDuplicate_def split: option.splits)

lemma duplicate_invalid:
  assumes "fst (findDuplicate this HandleNode (handles this) None) \<noteq> None
         \<or> fst (findDuplicate this SlotNode (slots this) None) \<noteq> None"
  shows "\<not> fst (isValid_recipe m this None)"
proof -
  have "\<not> (fst (findDuplicate this HandleNode (handles this) None) = None
          \<and> fst (findDuplicate this SlotNode (slots this)
                   (snd (findDuplicate this HandleNode (handles this) None))) = None)"
    using assms by (simp add: fst_findDuplicate)
  then show ?thesis
    by (auto simp: isValid_recipe_def and_then_def split: prod.splits)
qed

text \<open>
  A concrete instance: node methods that accept every node and change nothing,
  and a recipe of two handles with the ids \<open>id0\<close> and \<open>id1\<close>.
\<close>

definition example_methods :: "(unit, unit) NodeMethods" where
  "example_methods =
     \<lparr>node_isValid = (\<lambda>this k item. True),
      node_isValid_errors = (\<lambda>this k item. []),
      startNormalize = (\<lambda>k item this. this),
      normalizeConnection = (\<lambda>k item this. this),
      finishNormalize = (\<lambda>k item this. this),
      compareComparables = (\<lambda>this k a b. int a - int b),
      search_isValid = (\<lambda>s. True),
      search_normalize = (\<lambda>s. s)\<rparr>"

definition example_recipe :: "string \<Rightarrow> string \<Rightarrow> (unit, unit) Recipe" where
  "example_recipe id0 id1 =
     \<lparr>particles = [], handles = [0, 1], slots = [], connectionConstraints = [], obligations = [],
      verbs = [''b'', ''a''], patterns = [], search = None, isFrozen = False,
      particle_at = (\<lambda>r. \<lparr>connections = [], unnamedConnections = [], consumedSlotConnections = [],
                            particle_rest = ()\<rparr>),
      handle_at = (\<lambda>r. \<lparr>handle_id = Some (if r = 0 then id0 else id1), handle_rest = ()\<rparr>),
      slot_at = (\<lambda>r. \<lparr>slot_id = None, slot_rest = ()\<rparr>),
      handleConnection_at = (\<lambda>r. \<lparr>particle = 0, handle = None, type_isInterface = False,
                                    handleConnection_rest = ()\<rparr>),
      slotConnection_at = (\<lambda>r. \<lparr>targetSlot = None, providedSlots = [], slotConnection_rest = ()\<rparr>),
      constraint_at = (\<lambda>r. ())\<rparr>"

text \<open>
  C8: \<open>normalize\<close> refuses without mutating the recipe. On a frozen recipe it returns
  false and the recipe is unchanged; on a recipe that is not frozen and not valid it
  returns false and the recipe (arrays, nodes and all other state) is unchanged; a
  duplicate handle id or slot id makes the recipe invalid; without an errors map
  a refusal records nothing; and after a successful \<open>normalize\<close> the recipe is frozen, so
  that a second \<open>normalize\<close> returns false and changes nothing.
\<close>

theorem C8_normalize_refuses_without_mutation:
  "(isFrozen this \<longrightarrow>
      fst (Recipe_normalize m this options) = False \<and> fst (snd (Recipe_normalize m this options)) = this)
   \<and> (\<not> isFrozen this \<and> \<not> fst (isValid_recipe m this None) \<longrightarrow>
      fst (Recipe_normalize m this options) = False \<and> fst (snd (Recipe_normalize m this options)) = this)
   \<and> (fst (findDuplicate this HandleNode (handles this) None) \<noteq> None
        \<or> fst (findDuplicate this SlotNode (slots this) None) \<noteq> None \<longrightarrow>
      \<not> fst (isValid_recipe m this None))
   \<and> (\<not> fst (Recipe_normalize m this None) \<longrightarrow> snd (snd (Recipe_normalize m this None)) = None)
   \<and> (fst (Recipe_normalize m this options) \<longrightarrow>
      isFrozen (fst (snd (Recipe_normalize m this options)))
      \<and> Recipe_normalize m (fst (snd (Recipe_normalize m this options))) None
          = (False, fst (snd (Recipe_normalize m this options)), None))"
  by (auto simp: Recipe_normalize_def isFrozen_normalize_valid errors_set_None checkForInvalid_None
        findDuplicate_None duplicate_invalid)

lemma example_duplicate:
  "fst (findDuplicate (example_recipe ''h'' ''h'') HandleNode (handles (example_recipe ''h'' ''h'')) None)
     = Some 1"
  by (simp add: example_recipe_def findDuplicate_def id_of_def)

lemma example_normalize_ok:
  "fst (Recipe_normalize example_methods (example_recipe ''h'' ''g'') (Some []))"
  by (simp add: Recipe_normalize_def example_recipe_def example_methods_def isValid_recipe_def and_then_def
        findDuplicate_def id_of_def handleConnections_def slotConnections_def item_isValid_def)

theorem C8_normalize_refuses_without_mutation_witness:
  "\<not> isFrozen (example_recipe ''h'' ''h'')
   \<and> \<not> fst (isValid_recipe example_methods (example_recipe ''h'' ''h'') None)
   \<and> Recipe_normalize example_methods (example_recipe ''h'' ''h'') (Some [])
       = (False, example_recipe ''h'' ''h'',
          Some [(TheNode HandleNode 1, ''Has Duplicate Handle '' @ [CHR 0x27] @ ''h'' @ [CHR 0x27])])
   \<and> fst (Recipe_normalize example_methods (example_recipe ''h'' ''g'') (Some []))
   \<and> isFrozen (fst (snd (Recipe_normalize example_methods (example_recipe ''h'' ''g'') (Some []))))
   \<and> fst (Recipe_normalize example_methods
             (fst (snd (Recipe_normalize example_methods (example_recipe ''h'' ''g'') (Some [])))) (Some []))
       = False
   \<and> fst (snd (Recipe_normalize example_methods
             (fst (snd (Recipe_normalize example_methods (example_recipe ''h'' ''g'') (Some [])))) (Some [])))
       = fst (snd (Recipe_normalize example_methods (example_recipe ''h'' ''g'') (Some [])))"
proof -
  let ?dup = "example_recipe ''h'' ''h''"
  let ?ok = "example_recipe ''h'' ''g''"
  let ?done = "fst (snd (Recipe_normalize example_methods ?ok (Some [])))"
  have nf: "\<not> isFrozen ?dup" by (simp add: example_recipe_def)
  have inv: "\<not> fst (isValid_recipe example_methods ?dup None)"
    using C8_normalize_refuses_without_mutation [of ?dup example_methods None] example_duplicate
    by simp
  have errs: "snd (snd (Recipe_normalize example_methods ?dup (Some [])))
      = Some [(TheNode HandleNode 1, ''Has Duplicate Handle '' @ [CHR 0x27] @ ''h'' @ [CHR 0x27])]"
    using nf inv
    by (simp add: Recipe_normalize_def example_recipe_def example_methods_def findDuplicate_def id_of_def
          handleConnections_def slotConnections_def checkForInvalid_def item_isValid_def
          errors_set_def)
  have refused: "fst (Recipe_normalize example_methods ?dup (Some [])) = False
      \<and> fst (snd (Recipe_normalize example_methods ?dup (Some []))) = ?dup"
    using C8_normalize_refuses_without_mutation [of ?dup example_methods "Some []"] nf inv by blast
  have again: "isFrozen ?done"
    using C8_normalize_refuses_without_mutation [of ?ok example_methods "Some []"]
      example_normalize_ok by blast
  have frozen_case: "fst (Recipe_normalize example_methods ?done (Some [])) = False
      \<and> fst (snd (Recipe_normalize example_methods ?done (Some []))) = ?done"
    using C8_normalize_refuses_without_mutation [of ?done example_methods "Some []"] again by blast
  from nf inv errs refused example_normalize_ok again frozen_case show ?thesis
    by (metis prod.collapse)
qed

section \<open>Reference-mode store\<close>

subsection \<open>Version vectors and references\<close>







subsection \<open>The store between driver and proxy\<close>





















end
